theory Spec2Isabelle
  imports Complex_Main
begin

section \<open>The enumerations of \<^verbatim>\<open>mario_expert.py\<close>\<close>

text \<open>
  \<^verbatim>\<open>class Action(Enum)\<close> and \<^verbatim>\<open>class Element(Enum)\<close>. The members keep their
  names; \<open>action_value\<close> and \<open>element_value\<close> are the members' \<^verbatim>\<open>.value\<close>.
\<close>

datatype action =
  DOWN | LEFT | RIGHT | UP | JUMP | PRESS_B | JUMP_OBS | JUMP_EMPTY | JUMP_POWER_UP
  | JUMP_SKIP_ENEMY | JUMP_RIGHT | ENEMY_LEFT | JUMP_STAIRS | TUNNEL_LEFT | JUMP_BIG_GAP
  | JUMP_EMPTY_REDUCED

fun action_value :: "action \<Rightarrow> int" where
  "action_value DOWN = 0"
| "action_value LEFT = 1"
| "action_value RIGHT = 2"
| "action_value UP = 3"
| "action_value JUMP = 4"
| "action_value PRESS_B = 5"
| "action_value JUMP_OBS = 6"
| "action_value JUMP_EMPTY = 7"
| "action_value JUMP_POWER_UP = 8"
| "action_value JUMP_SKIP_ENEMY = 9"
| "action_value JUMP_RIGHT = 10"
| "action_value ENEMY_LEFT = 11"
| "action_value JUMP_STAIRS = 12"
| "action_value TUNNEL_LEFT = 13"
| "action_value JUMP_BIG_GAP = 14"
| "action_value JUMP_EMPTY_REDUCED = 15"

datatype element =
  GUMBA | GROUND | BLOCK | POWERUP | PIPE | PICKUP | MARIO | EMPTY | TOAD | FLY | ARCHER

fun element_value :: "element \<Rightarrow> int" where
  "element_value GUMBA = 15"
| "element_value GROUND = 10"
| "element_value BLOCK = 12"
| "element_value POWERUP = 13"
| "element_value PIPE = 14"
| "element_value PICKUP = 6"
| "element_value MARIO = 1"
| "element_value EMPTY = 0"
| "element_value TOAD = 16"
| "element_value FLY = 18"
| "element_value ARCHER = 19"

section \<open>Errors, indexing and loops\<close>

text \<open>
  The only exception the analysed functions can raise is the \<^verbatim>\<open>IndexError\<close> of an
  out-of-range subscript. A computation that may raise returns \<open>error + 'a\<close>, with
  \<open>Inl\<close> the exception; \<open>err_bind\<close> sequences two of them.
\<close>

datatype error = IndexError

definition err_bind :: "error + 'a \<Rightarrow> ('a \<Rightarrow> error + 'b) \<Rightarrow> error + 'b" where
  "err_bind m f = (case m of Inl e \<Rightarrow> Inl e | Inr v \<Rightarrow> f v)"

text \<open>
  Subscripting an axis of length \<open>n\<close> (a Python list or one axis of a numpy array):
  indices \<open>0 .. n - 1\<close> read from the front, indices \<open>- n .. - 1\<close> read from the end,
  every other index raises.
\<close>

definition idx :: "'a list \<Rightarrow> int \<Rightarrow> error + 'a" where
  "idx xs i =
     (if 0 \<le> i \<and> i < int (length xs) then Inr (xs ! nat i)
      else if - int (length xs) \<le> i \<and> i < 0 then Inr (xs ! nat (int (length xs) + i))
      else Inl IndexError)"

text \<open>
  The game area is a two-dimensional numpy array of tile numbers: a list of rows,
  row 0 at the top. \<open>is_grid\<close> says that it is rectangular, which a numpy array is by
  construction. \<open>shape\<close> is \<^verbatim>\<open>game_area.shape\<close>; \<open>cell g a b\<close> is
  \<^verbatim>\<open>game_area[a][b]\<close>, and also \<^verbatim>\<open>game_area[a, b]\<close>, which checks the same bounds.
\<close>

type_synonym grid = "int list list"

definition is_grid :: "grid \<Rightarrow> bool" where
  "is_grid g = list_all (\<lambda>r. length r = length (hd g)) g"

definition shape :: "grid \<Rightarrow> int \<times> int" where
  "shape g = (int (length g), (case g of [] \<Rightarrow> 0 | r # _ \<Rightarrow> int (length r)))"

definition cell :: "grid \<Rightarrow> int \<Rightarrow> int \<Rightarrow> error + int" where
  "cell g a b = err_bind (idx g a) (\<lambda>r. idx r b)"

definition eq_cell :: "grid \<Rightarrow> int \<Rightarrow> int \<Rightarrow> element \<Rightarrow> error + bool" where
  "eq_cell g a b e = err_bind (cell g a b) (\<lambda>v. Inr (v = element_value e))"

text \<open>Python's short-circuit \<^verbatim>\<open>and\<close> and \<^verbatim>\<open>or\<close> over operands that may raise.\<close>

definition py_and :: "error + bool \<Rightarrow> error + bool \<Rightarrow> error + bool" where
  "py_and p q = err_bind p (\<lambda>x. if x then q else Inr False)"

definition py_or :: "error + bool \<Rightarrow> error + bool \<Rightarrow> error + bool" where
  "py_or p q = err_bind p (\<lambda>x. if x then Inr True else q)"

text \<open>
  A \<^verbatim>\<open>for\<close> loop whose body may \<^verbatim>\<open>return\<close>: the body yields \<open>Inr (Some r)\<close> for
  \<^verbatim>\<open>return r\<close>, \<open>Inr None\<close> when it falls through to the next iteration, \<open>Inl e\<close>
  when it raises. \<open>py_range n\<close> is \<^verbatim>\<open>range(n)\<close>; \<open>or_return res d\<close> is the
  \<^verbatim>\<open>return d\<close> that follows the loops.
\<close>

fun for_loop :: "'i list \<Rightarrow> ('i \<Rightarrow> error + 'r option) \<Rightarrow> error + 'r option" where
  "for_loop [] body = Inr None"
| "for_loop (i # rest) body =
     (case body i of
        Inl e \<Rightarrow> Inl e
      | Inr (Some r) \<Rightarrow> Inr (Some r)
      | Inr None \<Rightarrow> for_loop rest body)"

definition py_range :: "int \<Rightarrow> int list" where
  "py_range n = map int [0..<nat n]"

definition or_return :: "error + 'r option \<Rightarrow> 'r \<Rightarrow> error + 'r" where
  "or_return res d = (case res of Inl e \<Rightarrow> Inl e | Inr None \<Rightarrow> Inr d | Inr (Some r) \<Rightarrow> Inr r)"

section \<open>The spatial queries of \<^verbatim>\<open>MarioExpert\<close>\<close>

text \<open>
  \<^verbatim>\<open>get_distance\<close> is \<^verbatim>\<open>math.sqrt\<close> of an integer. The model takes the real square
  root. Every comparison of a distance in the source is against one of the constants
  1.0, 1.5, 2, 2.0, 2.9, 3, 3.0, 4, 4.5, 5, 6.0, 7: the IEEE square root is correctly
  rounded, monotone and exact on perfect squares, and the square of each constant is
  either an integer or lies strictly between two integers, so the floating-point
  comparison and the real one decide alike.
\<close>

definition get_distance :: "int \<Rightarrow> int \<Rightarrow> int \<Rightarrow> int \<Rightarrow> real" where
  "get_distance row0 col0 row1 col1 =
     sqrt (real_of_int ((col1 - col0) * (col1 - col0) + (row1 - row0) * (row1 - row0)))"

text \<open>
  \<^verbatim>\<open>find_mario\<close>: row-major scan, the cell right of the first tile 1, or \<open>(0, 0)\<close>.
  The parameters \<^verbatim>\<open>row\<close> and \<^verbatim>\<open>col\<close> of the source are never read.
\<close>

definition find_mario :: "grid \<Rightarrow> error + (int \<times> int)" where
  "find_mario g =
     (case shape g of (x, y) \<Rightarrow>
        or_return
          (for_loop (py_range x) (\<lambda>a.
             for_loop (py_range y) (\<lambda>b.
               err_bind (cell g a b) (\<lambda>v.
                 if v = 1 then Inr (Some (a, b + 1)) else Inr None))))
          (0, 0))"

definition find_enemy :: "grid \<Rightarrow> error + (int \<times> int)" where
  "find_enemy g =
     (case shape g of (x, y) \<Rightarrow>
        or_return
          (for_loop (py_range x) (\<lambda>a.
             for_loop (py_range y) (\<lambda>b.
               err_bind (cell g a b) (\<lambda>v.
                 if v \<ge> element_value GUMBA then Inr (Some (a, b)) else Inr None))))
          (10000, 0))"

text \<open>
  \<^verbatim>\<open>get_enemy_dist\<close>: column-major scan (columns left to right, each column top to
  bottom). The second component is the tile number found, or \<open>None\<close> for Python's
  \<^verbatim>\<open>None\<close>.
\<close>

definition enemy_dist_body ::
  "int \<Rightarrow> int \<Rightarrow> grid \<Rightarrow> int \<Rightarrow> int \<Rightarrow> error + (real \<times> int option) option" where
  "enemy_dist_body row col g a b =
     err_bind (cell g a b) (\<lambda>v.
       if v \<ge> 15 then
         (if b \<ge> col then Inr (Some (get_distance row col a b, Some v)) else Inr None)
       else Inr None)"

definition get_enemy_dist :: "int \<Rightarrow> int \<Rightarrow> grid \<Rightarrow> error + (real \<times> int option)" where
  "get_enemy_dist row col g =
     (case shape g of (x, y) \<Rightarrow>
        or_return
          (for_loop (py_range y) (\<lambda>b.
             for_loop (py_range x) (\<lambda>a. enemy_dist_body row col g a b)))
          (10000, None))"

text \<open>
  \<^verbatim>\<open>check_obstacle\<close> returns \<^verbatim>\<open>"obstacle found"\<close>, \<^verbatim>\<open>"found stairs"\<close> or
  \<^verbatim>\<open>False\<close>. The \<^verbatim>\<open>print\<close> calls are left out; the subscripts they are guarded by
  stay, since they can raise.
\<close>

datatype obstacle = NoObstacle | ObstacleFound | FoundStairs

definition obstacle_body :: "int \<Rightarrow> int \<Rightarrow> grid \<Rightarrow> int \<Rightarrow> int \<Rightarrow> error + obstacle option" where
  "obstacle_body row col g a b =
     err_bind (cell g a b) (\<lambda>v.
       if v = element_value BLOCK \<or> v = element_value PIPE
          \<or> (v = element_value GROUND \<and> b > col \<and> a \<le> row + 1) then
         (if b > col then
            (let distance = get_distance row col a b;
                 last_check = (if distance \<le> 2 then Inr (Some ObstacleFound) else Inr None)
             in
               if v = element_value BLOCK then
                 err_bind (py_and (eq_cell g (a + 1) b BLOCK) (eq_cell g (a - 1) b BLOCK))
                   (\<lambda>_. last_check)
               else if v = element_value PIPE then last_check
               else if v = element_value GROUND then
                 err_bind (eq_cell g (a + 1) b GROUND) (\<lambda>below.
                   if below then
                     err_bind (eq_cell g (a - 1) b GROUND) (\<lambda>above.
                       if above then
                         (if distance \<le> 1 then Inr (Some ObstacleFound) else last_check)
                       else if a = row + 1 then
                         (if distance \<le> 2 then Inr (Some FoundStairs) else last_check)
                       else last_check)
                   else last_check)
               else last_check)
          else Inr None)
       else Inr None)"

definition check_obstacle :: "int \<Rightarrow> int \<Rightarrow> grid \<Rightarrow> error + obstacle" where
  "check_obstacle row col g =
     (case shape g of (x, y) \<Rightarrow>
        if row \<le> 14 then
          or_return
            (for_loop (py_range y) (\<lambda>b.
               for_loop (py_range x) (\<lambda>a. obstacle_body row col g a b)))
            NoObstacle
        else Inr NoObstacle)"

definition empty_jump_body :: "int \<Rightarrow> int \<Rightarrow> grid \<Rightarrow> int \<Rightarrow> int \<Rightarrow> error + bool option" where
  "empty_jump_body row col g a b =
     err_bind (cell g a b) (\<lambda>v.
       if v = element_value EMPTY \<and> a = row + 2 \<and> b > col then
         err_bind
           (py_or
              (py_and (eq_cell g a (b - 1) GROUND)
                 (py_and (eq_cell g a (b - 2) GROUND) (eq_cell g a (b - 3) GROUND)))
              (py_and (eq_cell g a (b - 1) BLOCK)
                 (py_and (eq_cell g a (b - 2) BLOCK) (eq_cell g a (b - 3) BLOCK))))
           (\<lambda>wide.
              if wide then
                (if get_distance row col a b \<le> 29 / 10 then Inr (Some True) else Inr None)
              else Inr None)
       else Inr None)"

definition check_empty_jump :: "int \<Rightarrow> int \<Rightarrow> grid \<Rightarrow> error + bool" where
  "check_empty_jump row col g =
     (case shape g of (x, y) \<Rightarrow>
        or_return
          (for_loop (py_range y) (\<lambda>b.
             for_loop (py_range x) (\<lambda>a. empty_jump_body row col g a b)))
          False)"

definition on_ground_body :: "int \<Rightarrow> grid \<Rightarrow> int \<Rightarrow> int \<Rightarrow> error + bool option" where
  "on_ground_body col g a b =
     err_bind (cell g a b) (\<lambda>v.
       if v = element_value GROUND then
         (if col = b then
            err_bind (py_and (eq_cell g a (b + 1) GROUND) (eq_cell g a (b - 1) GROUND))
              (\<lambda>both. if both then Inr (Some True) else Inr None)
          else Inr None)
       else Inr None)"

definition check_on_ground :: "int \<Rightarrow> int \<Rightarrow> grid \<Rightarrow> error + bool" where
  "check_on_ground row col g =
     (case shape g of (x, y) \<Rightarrow>
        or_return
          (for_loop (py_range y) (\<lambda>b.
             for_loop (py_range x) (\<lambda>a. on_ground_body col g a b)))
          False)"

text \<open>
  \<^verbatim>\<open>check_power_up\<close> has no \<^verbatim>\<open>return\<close> after its loops: it returns \<^verbatim>\<open>True\<close>,
  \<^verbatim>\<open>False\<close> or, falling off the end, \<^verbatim>\<open>None\<close>; the model's \<open>Some True\<close>,
  \<open>Some False\<close> and \<open>None\<close>.
\<close>

definition power_up_body :: "int \<Rightarrow> int \<Rightarrow> grid \<Rightarrow> int \<Rightarrow> int \<Rightarrow> error + bool option" where
  "power_up_body row col g a b =
     err_bind (py_and (eq_cell g a b POWERUP) (check_on_ground row col g)) (\<lambda>found.
       if found then
         (if row \<ge> a \<and> b \<ge> col then
            err_bind
              (py_and (Inr (get_distance row col a b \<le> 3)) (eq_cell g (row + 2) col GROUND))
              (\<lambda>reachable. Inr (Some reachable))
          else Inr None)
       else Inr None)"

definition check_power_up :: "int \<Rightarrow> int \<Rightarrow> grid \<Rightarrow> error + bool option" where
  "check_power_up row col g =
     (case shape g of (x, y) \<Rightarrow>
        for_loop (py_range y) (\<lambda>b.
          for_loop (py_range x) (\<lambda>a. power_up_body row col g a b)))"

section \<open>The decision engine: \<^verbatim>\<open>MarioExpert.choose_action\<close>\<close>

text \<open>
  The module globals that survive a call are \<^verbatim>\<open>prev_action\<close> and \<^verbatim>\<open>prev_x\<close>
  (\<^verbatim>\<open>row\<close>, \<^verbatim>\<open>col\<close> and \<^verbatim>\<open>curr_x\<close> are assigned before they are read); they are the
  \<open>history\<close>, passed in and returned. What \<^verbatim>\<open>self.environment\<close> answers during one
  call is the \<open>environment\<close>: \<^verbatim>\<open>game_area()\<close>, \<^verbatim>\<open>get_x_position()\<close>,
  \<^verbatim>\<open>get_world()\<close> and \<^verbatim>\<open>get_stage()\<close>.
\<close>

record history =
  prev_action :: action
  prev_x :: int

record environment =
  game_area :: grid
  x_position :: int
  world :: int
  stage :: int

text \<open>The branch \<^verbatim>\<open>elif enemy_dist <= 4.5\<close>: the reaction by enemy type.\<close>

definition react_to_enemy :: "action \<Rightarrow> int \<Rightarrow> int \<Rightarrow> real \<Rightarrow> int option \<Rightarrow> action" where
  "react_to_enemy prev row enemy_row enemy_dist enemy_type =
     (if enemy_type = Some (element_value GUMBA) then
        (if prev = RIGHT then JUMP
         else if prev = ENEMY_LEFT \<and> enemy_dist < 2 \<and> enemy_dist > 3 / 2 then JUMP_SKIP_ENEMY
         else if prev = ENEMY_LEFT \<and> enemy_dist \<ge> 3 / 2 then JUMP
         else if prev = JUMP then (if enemy_dist < 5 then ENEMY_LEFT else JUMP_RIGHT)
         else JUMP)
      else if enemy_type = Some (element_value TOAD) \<and> enemy_dist \<le> 4 then
        (if prev = JUMP then LEFT else JUMP)
      else if enemy_type = Some (element_value FLY) \<and> enemy_dist \<le> 3 then
        (if prev = JUMP then LEFT else JUMP)
      else if enemy_type = Some (element_value ARCHER) \<and> enemy_dist \<le> 4 \<and> enemy_row = row then
        (if prev = JUMP then LEFT else JUMP)
      else RIGHT)"

text \<open>The branches under \<^verbatim>\<open>check_empty_jump\<close>, \<^verbatim>\<open>check_power_up\<close> and the obstacle check.\<close>

definition react_to_gap :: "action \<Rightarrow> environment \<Rightarrow> action" where
  "react_to_gap prev env =
     (if 2282 \<le> x_position env \<and> x_position env \<le> 2286 \<and> stage env = 1 \<and> world env = 1 then UP
      else if world env = 1 \<and> stage env = 2 then JUMP_EMPTY_REDUCED
      else if prev = JUMP_EMPTY \<or> prev = JUMP_BIG_GAP \<or> prev = JUMP_EMPTY_REDUCED then LEFT
      else if prev = UP then JUMP_BIG_GAP
      else JUMP_EMPTY)"

definition react_to_power_up :: "action \<Rightarrow> action" where
  "react_to_power_up prev =
     (if prev = JUMP_POWER_UP then RIGHT else if prev = JUMP then UP else JUMP_POWER_UP)"

definition react_to_obstacle :: "history \<Rightarrow> int \<Rightarrow> obstacle \<Rightarrow> action" where
  "react_to_obstacle h curr_x obstacle_check =
     (if prev_x h = curr_x \<and> obstacle_check = FoundStairs then JUMP_STAIRS
      else if prev_action h = JUMP_OBS then RIGHT
      else JUMP_OBS)"

text \<open>
  Lines 397 to 549 of the source: the four queries made up front, then the chain of
  \<^verbatim>\<open>if\<close>/\<^verbatim>\<open>elif\<close> that assigns \<^verbatim>\<open>curr_action\<close>. \<^verbatim>\<open>game_area[row+2][col]\<close> is read
  once by the first test of the chain (where it may raise) and again by the third, which
  is reached only when the first read succeeded. \<^verbatim>\<open>check_empty_jump\<close> and
  \<^verbatim>\<open>check_power_up\<close> are called only when the chain reaches them.
\<close>

definition select_action :: "history \<Rightarrow> environment \<Rightarrow> error + action" where
  "select_action h env =
     err_bind (find_mario (game_area env)) (\<lambda>(row, col).
     err_bind (find_enemy (game_area env)) (\<lambda>(enemy_row, enemy_col).
     err_bind (get_enemy_dist row col (game_area env)) (\<lambda>(enemy_dist, enemy_type).
     err_bind (check_obstacle row col (game_area env)) (\<lambda>obstacle_check.
       if row < 14 then
         err_bind (cell (game_area env) (row + 2) col) (\<lambda>below.
           if below = element_value PIPE then
             (if prev_action h \<in> {JUMP, JUMP_EMPTY, JUMP_OBS, JUMP_POWER_UP} then Inr UP
              else Inr JUMP_RIGHT)
           else if enemy_row < row \<and> enemy_col > col \<and> enemy_dist < 6 then Inr LEFT
           else if row + 2 \<le> enemy_row \<and> enemy_row \<noteq> 0 \<and> prev_action h \<in> {RIGHT}
                   \<and> (below \<noteq> element_value EMPTY \<and> enemy_dist < 7) then Inr JUMP_EMPTY
           else if enemy_dist \<le> 9 / 2 then
             Inr (react_to_enemy (prev_action h) row enemy_row enemy_dist enemy_type)
           else
             err_bind (check_empty_jump row col (game_area env)) (\<lambda>gap.
               if gap then Inr (react_to_gap (prev_action h) env)
               else
                 err_bind (check_power_up row col (game_area env)) (\<lambda>power_up.
                   if power_up = Some True then Inr (react_to_power_up (prev_action h))
                   else if obstacle_check \<in> {ObstacleFound, FoundStairs} then
                     Inr (react_to_obstacle h (x_position env) obstacle_check)
                   else if row = 0 then Inr UP
                   else Inr RIGHT)))
       else Inr UP))))"

text \<open>
  Lines 551 to 559: the correction of two \<^verbatim>\<open>UP\<close> in a row, the update of the globals
  and the returned \<^verbatim>\<open>curr_action.value\<close>.
\<close>

definition choose_action :: "history \<Rightarrow> environment \<Rightarrow> error + (int \<times> history)" where
  "choose_action h env =
     err_bind (select_action h env) (\<lambda>selected.
       (let curr_action = (if prev_action h = UP \<and> selected = UP then RIGHT else selected)
        in Inr (action_value curr_action,
                \<lparr>prev_action = curr_action, prev_x = x_position env\<rparr>)))"

text \<open>
  \<^verbatim>\<open>play\<close> calls \<^verbatim>\<open>step\<close>, hence \<^verbatim>\<open>choose_action\<close>, once per iteration, each time on
  what the environment then shows. \<open>decisions\<close> runs the engine over the successive
  environments and collects the returned action values; an exception ends the run.
\<close>

fun decisions :: "history \<Rightarrow> environment list \<Rightarrow> error + (int list \<times> history)" where
  "decisions h [] = Inr ([], h)"
| "decisions h (env # envs) =
     err_bind (choose_action h env) (\<lambda>(v, h').
       err_bind (decisions h' envs) (\<lambda>(vs, h''). Inr (v # vs, h'')))"

section \<open>The action executor: \<^verbatim>\<open>MarioController.run_action\<close>\<close>

text \<open>
  The \<^verbatim>\<open>WindowEvent\<close>s the controller sends are a press or a release of one of six
  buttons; \<open>valid_actions\<close> and \<open>release_button\<close> are the two lists of
  \<^verbatim>\<open>__init__\<close>. What \<^verbatim>\<open>run_action\<close> does to the emulator is the sequence of its
  \<^verbatim>\<open>send_input\<close> and \<^verbatim>\<open>tick\<close> calls.
\<close>

datatype button = ARROW_DOWN | ARROW_LEFT | ARROW_RIGHT | ARROW_UP | BUTTON_A | BUTTON_B

datatype window_event = PRESS button | RELEASE button

datatype pyboy_call = Send_input window_event | Tick

definition valid_actions :: "window_event list" where
  "valid_actions =
     [PRESS ARROW_DOWN, PRESS ARROW_LEFT, PRESS ARROW_RIGHT, PRESS ARROW_UP,
      PRESS BUTTON_A, PRESS BUTTON_B]"

definition release_button :: "window_event list" where
  "release_button =
     [RELEASE ARROW_DOWN, RELEASE ARROW_LEFT, RELEASE ARROW_RIGHT, RELEASE ARROW_UP,
      RELEASE BUTTON_A, RELEASE BUTTON_B]"

definition send_input :: "window_event list \<Rightarrow> int \<Rightarrow> error + pyboy_call list" where
  "send_input table i = err_bind (idx table i) (\<lambda>ev. Inr [Send_input ev])"

definition ticks :: "nat \<Rightarrow> error + pyboy_call list" where
  "ticks n = Inr (replicate n Tick)"

fun in_order :: "(error + pyboy_call list) list \<Rightarrow> error + pyboy_call list" where
  "in_order [] = Inr []"
| "in_order (c # cs) = err_bind c (\<lambda>xs. err_bind (in_order cs) (\<lambda>ys. Inr (xs @ ys)))"

text \<open>
  The branches of \<^verbatim>\<open>run_action\<close> before its last line: the calls made, and the value
  \<^verbatim>\<open>action\<close> holds afterwards. \<^verbatim>\<open>int(self.act_freq * 0.2)\<close> is \<open>act_freq div 5\<close> for
  the natural numbers a frequency can be.
\<close>

definition recipe :: "nat \<Rightarrow> int \<Rightarrow> error + (pyboy_call list \<times> int)" where
  "recipe act_freq action =
     (if action = action_value JUMP_OBS then
        err_bind (in_order [send_input valid_actions (action_value JUMP), ticks (act_freq * 10)])
          (\<lambda>calls. Inr (calls, action_value JUMP))
      else if action = action_value JUMP_POWER_UP then
        err_bind (in_order [send_input valid_actions (action_value JUMP), ticks act_freq])
          (\<lambda>calls. Inr (calls, action_value JUMP))
      else if action = action_value JUMP_EMPTY then
        err_bind (in_order [send_input valid_actions (action_value JUMP),
                            send_input valid_actions (action_value RIGHT),
                            ticks (act_freq * 5),
                            send_input release_button (action_value JUMP)])
          (\<lambda>calls. Inr (calls, action_value RIGHT))
      else if action = action_value JUMP_BIG_GAP then
        err_bind (in_order [send_input valid_actions (action_value JUMP),
                            ticks (act_freq * 10),
                            send_input release_button (action_value JUMP)])
          (\<lambda>calls. Inr (calls, action_value RIGHT))
      else if action = action_value ENEMY_LEFT then
        err_bind (in_order [send_input valid_actions (action_value LEFT), ticks act_freq])
          (\<lambda>calls. Inr (calls, action_value LEFT))
      else if action = action_value TUNNEL_LEFT then
        err_bind (in_order [send_input valid_actions (action_value LEFT), ticks (act_freq * 2)])
          (\<lambda>calls. Inr (calls, action_value LEFT))
      else if action = action_value JUMP_SKIP_ENEMY then
        err_bind (in_order [send_input valid_actions (action_value JUMP),
                            send_input valid_actions (action_value RIGHT),
                            ticks (act_freq * 2),
                            send_input release_button (action_value RIGHT)])
          (\<lambda>calls. Inr (calls, action_value JUMP))
      else if action = action_value JUMP_RIGHT then
        err_bind (in_order [send_input valid_actions (action_value JUMP),
                            send_input valid_actions (action_value RIGHT),
                            ticks act_freq,
                            send_input release_button (action_value RIGHT)])
          (\<lambda>calls. Inr (calls, action_value JUMP))
      else if action = action_value JUMP_STAIRS then
        err_bind (in_order [send_input valid_actions (action_value LEFT),
                            ticks (act_freq div 5),
                            send_input release_button (action_value LEFT),
                            send_input valid_actions (action_value RIGHT),
                            ticks act_freq,
                            send_input valid_actions (action_value JUMP),
                            ticks act_freq,
                            send_input release_button (action_value JUMP)])
          (\<lambda>calls. Inr (calls, action_value RIGHT))
      else if action = action_value JUMP_EMPTY_REDUCED then
        err_bind (in_order [send_input valid_actions (action_value JUMP),
                            send_input valid_actions (action_value RIGHT),
                            ticks (act_freq * 1),
                            send_input release_button (action_value JUMP)])
          (\<lambda>calls. Inr (calls, action_value RIGHT))
      else
        err_bind (in_order [send_input valid_actions action, ticks act_freq])
          (\<lambda>calls. Inr (calls, action)))"

text \<open>\<^verbatim>\<open>run_action\<close>: the branch taken, then \<^verbatim>\<open>send_input(self.release_button[action])\<close>.\<close>

definition run_action :: "nat \<Rightarrow> int \<Rightarrow> error + pyboy_call list" where
  "run_action act_freq action =
     err_bind (recipe act_freq action) (\<lambda>(calls, remaining).
       err_bind (send_input release_button remaining) (\<lambda>final. Inr (calls @ final)))"

text \<open>
  Modelled from the spec: the actuator behind \<^verbatim>\<open>pyboy.send_input\<close>, which is not part
  of the source file. Section 6 of the specification gives its contract: holding an
  input makes it held, releasing it makes it not held, and both are idempotent; a tick
  changes no input. \<open>held_after calls s\<close> is the set of inputs held after the calls,
  from the set \<open>s\<close> held before; \<open>pressed calls\<close> are the inputs the calls hold at some
  point.
\<close>

fun actuate :: "pyboy_call \<Rightarrow> button set \<Rightarrow> button set" where
  "actuate (Send_input (PRESS b)) s = insert b s"
| "actuate (Send_input (RELEASE b)) s = s - {b}"
| "actuate Tick s = s"

fun held_after :: "pyboy_call list \<Rightarrow> button set \<Rightarrow> button set" where
  "held_after [] s = s"
| "held_after (c # cs) s = held_after cs (actuate c s)"

fun pressed :: "pyboy_call list \<Rightarrow> button set" where
  "pressed [] = {}"
| "pressed (Send_input (PRESS b) # cs) = insert b (pressed cs)"
| "pressed (c # cs) = pressed cs"

section \<open>Game areas used as examples\<close>


text \<open>Three hostile tiles, one of them left of column 1.\<close>

definition two_enemies :: grid where
  "two_enemies = [[15, 0, 0],
                  [0, 16, 15]]"

text \<open>
  An area with no agent and no other tile; the agent standing on a pipe; a hostile on the
  agent's level, two columns ahead; a hostile three rows below the agent's row.
\<close>

definition blank_grid :: grid where
  "blank_grid = [[0, 0, 0],
                 [0, 0, 0],
                 [0, 0, 0]]"

definition pipe_grid :: grid where
  "pipe_grid = [[1, 0],
                [1, 0],
                [14, 14]]"

definition gumba_grid :: grid where
  "gumba_grid = [[1, 0, 0, 0],
                 [1, 0, 0, 15],
                 [10, 10, 10, 10],
                 [10, 10, 10, 10]]"

definition gumba_below_grid :: grid where
  "gumba_below_grid = [[1, 0, 0, 0],
                       [1, 0, 0, 0],
                       [10, 10, 0, 0],
                       [10, 10, 0, 15]]"

text \<open>
  Two power-up tiles above and right of the agent at \<open>(4, 1)\<close>, the one the scan meets
  first out of reach; one power-up tile in reach of the agent at \<open>(2, 1)\<close>.
\<close>

definition two_power_ups :: grid where
  "two_power_ups = [[0, 0, 13],
                    [0, 0, 0],
                    [0, 0, 0],
                    [0, 0, 13],
                    [1, 0, 0],
                    [1, 0, 0],
                    [10, 10, 10]]"

definition one_power_up :: grid where
  "one_power_up = [[0, 0, 0],
                   [0, 0, 13],
                   [1, 0, 0],
                   [1, 0, 0],
                   [10, 10, 10]]"

text \<open>
  Two game areas of the real size, sixteen rows of twenty tiles. In the first the agent is
  falling into a pit, its tiles in rows 14 and 15, with ground left of the pit and, four
  columns ahead, right of it. In the second the agent stands at the left edge of the
  screen on two ground tiles, a gap of four tiles in front of it.
\<close>

definition pit_grid :: grid where
  "pit_grid =
    [[0, 0, 0, 0, 0, 0, 0, 0, 0, 0, 0, 0, 0, 0, 0, 0, 0, 0, 0, 0],
     [0, 0, 0, 0, 0, 0, 0, 0, 0, 0, 0, 0, 0, 0, 0, 0, 0, 0, 0, 0],
     [0, 0, 0, 0, 0, 0, 0, 0, 0, 0, 0, 0, 0, 0, 0, 0, 0, 0, 0, 0],
     [0, 0, 0, 0, 0, 0, 0, 0, 0, 0, 0, 0, 0, 0, 0, 0, 0, 0, 0, 0],
     [0, 0, 0, 0, 0, 0, 0, 0, 0, 0, 0, 0, 0, 0, 0, 0, 0, 0, 0, 0],
     [0, 0, 0, 0, 0, 0, 0, 0, 0, 0, 0, 0, 0, 0, 0, 0, 0, 0, 0, 0],
     [0, 0, 0, 0, 0, 0, 0, 0, 0, 0, 0, 0, 0, 0, 0, 0, 0, 0, 0, 0],
     [0, 0, 0, 0, 0, 0, 0, 0, 0, 0, 0, 0, 0, 0, 0, 0, 0, 0, 0, 0],
     [0, 0, 0, 0, 0, 0, 0, 0, 0, 0, 0, 0, 0, 0, 0, 0, 0, 0, 0, 0],
     [0, 0, 0, 0, 0, 0, 0, 0, 0, 0, 0, 0, 0, 0, 0, 0, 0, 0, 0, 0],
     [0, 0, 0, 0, 0, 0, 0, 0, 0, 0, 0, 0, 0, 0, 0, 0, 0, 0, 0, 0],
     [0, 0, 0, 0, 0, 0, 0, 0, 0, 0, 0, 0, 0, 0, 0, 0, 0, 0, 0, 0],
     [0, 0, 0, 0, 0, 0, 0, 0, 0, 0, 0, 0, 0, 0, 0, 0, 0, 0, 0, 0],
     [0, 0, 0, 0, 0, 0, 0, 0, 0, 0, 0, 0, 0, 0, 0, 0, 0, 0, 0, 0],
     [10, 10, 10, 10, 0, 1, 1, 0, 0, 0, 10, 10, 10, 10, 10, 10, 10, 10, 10, 10],
     [10, 10, 10, 10, 0, 1, 1, 0, 0, 0, 10, 10, 10, 10, 10, 10, 10, 10, 10, 10]]"

definition left_edge_gap :: grid where
  "left_edge_gap =
    [[0, 0, 0, 0, 0, 0, 0, 0, 0, 0, 0, 0, 0, 0, 0, 0, 0, 0, 0, 0],
     [0, 0, 0, 0, 0, 0, 0, 0, 0, 0, 0, 0, 0, 0, 0, 0, 0, 0, 0, 0],
     [0, 0, 0, 0, 0, 0, 0, 0, 0, 0, 0, 0, 0, 0, 0, 0, 0, 0, 0, 0],
     [0, 0, 0, 0, 0, 0, 0, 0, 0, 0, 0, 0, 0, 0, 0, 0, 0, 0, 0, 0],
     [0, 0, 0, 0, 0, 0, 0, 0, 0, 0, 0, 0, 0, 0, 0, 0, 0, 0, 0, 0],
     [0, 0, 0, 0, 0, 0, 0, 0, 0, 0, 0, 0, 0, 0, 0, 0, 0, 0, 0, 0],
     [0, 0, 0, 0, 0, 0, 0, 0, 0, 0, 0, 0, 0, 0, 0, 0, 0, 0, 0, 0],
     [0, 0, 0, 0, 0, 0, 0, 0, 0, 0, 0, 0, 0, 0, 0, 0, 0, 0, 0, 0],
     [0, 0, 0, 0, 0, 0, 0, 0, 0, 0, 0, 0, 0, 0, 0, 0, 0, 0, 0, 0],
     [0, 0, 0, 0, 0, 0, 0, 0, 0, 0, 0, 0, 0, 0, 0, 0, 0, 0, 0, 0],
     [0, 0, 0, 0, 0, 0, 0, 0, 0, 0, 0, 0, 0, 0, 0, 0, 0, 0, 0, 0],
     [0, 0, 0, 0, 0, 0, 0, 0, 0, 0, 0, 0, 0, 0, 0, 0, 0, 0, 0, 0],
     [1, 1, 0, 0, 0, 0, 0, 0, 0, 0, 0, 0, 0, 0, 0, 0, 0, 0, 0, 0],
     [1, 1, 0, 0, 0, 0, 0, 0, 0, 0, 0, 0, 0, 0, 0, 0, 0, 0, 0, 0],
     [10, 10, 0, 0, 0, 0, 10, 10, 10, 10, 10, 10, 10, 10, 10, 10, 10, 10, 10, 10],
     [10, 10, 0, 0, 0, 0, 10, 10, 10, 10, 10, 10, 10, 10, 10, 10, 10, 10, 10, 10]]"

section \<open>The specification's words\<close>

text \<open>
  The specification's ``any jump variant'' of the Action set (sections 3 and 4.3): plain
  Jump and every compound intent whose name is a jump. This definition follows the
  specification, not the source; the source's own list is the one in \<open>select_action\<close>.
\<close>

fun spec_jump_variant :: "action \<Rightarrow> bool" where
  "spec_jump_variant JUMP = True"
| "spec_jump_variant JUMP_OBS = True"
| "spec_jump_variant JUMP_EMPTY = True"
| "spec_jump_variant JUMP_EMPTY_REDUCED = True"
| "spec_jump_variant JUMP_POWER_UP = True"
| "spec_jump_variant JUMP_SKIP_ENEMY = True"
| "spec_jump_variant JUMP_RIGHT = True"
| "spec_jump_variant JUMP_STAIRS = True"
| "spec_jump_variant JUMP_BIG_GAP = True"
| "spec_jump_variant _ = False"

section \<open>Basic facts\<close>

lemma err_bind_simps:
  "err_bind (Inl e) f = Inl e"
  "err_bind (Inr v) f = f v"
  by (simp_all add: err_bind_def)


subsection \<open>Loops\<close>

text \<open>
  A loop returns what the first iteration that does not fall through returns, and falls
  through when every iteration does.
\<close>

lemma for_loop_Cons_if:
  "for_loop (x # xs) f = (if f x = Inr None then for_loop xs f else f x)"
  by (simp split: sum.splits option.splits)

lemma for_loop_None_iff:
  "for_loop xs f = Inr None \<longleftrightarrow> (\<forall>x\<in>set xs. f x = Inr None)"
  by (induction xs) (auto simp: for_loop_Cons_if simp del: for_loop.simps(2))

lemma for_loop_stop_iff:
  assumes "res \<noteq> Inr None"
  shows "for_loop xs f = res \<longleftrightarrow>
     (\<exists>i<length xs. f (xs ! i) = res \<and> (\<forall>j<i. f (xs ! j) = Inr None))"
proof (induction xs)
  case Nil
  show ?case using assms by auto
next
  case (Cons x xs)
  show ?case
  proof (cases "f x = Inr None")
    case False
    have "(\<exists>i<length (x # xs). f ((x # xs) ! i) = res \<and> (\<forall>j<i. f ((x # xs) ! j) = Inr None))
          \<longleftrightarrow> f x = res" (is "?A \<longleftrightarrow> _")
    proof
      assume ?A
      then obtain i where i: "f ((x # xs) ! i) = res" "\<forall>j<i. f ((x # xs) ! j) = Inr None"
        by blast
      have "i = 0"
      proof (rule ccontr)
        assume "i \<noteq> 0"
        then have "f ((x # xs) ! 0) = Inr None" using i(2) by blast
        with False show False by simp
      qed
      with i(1) show "f x = res" by simp
    next
      assume "f x = res"
      then show ?A by (intro exI[of _ 0]) simp
    qed
    with False show ?thesis by (simp add: for_loop_Cons_if del: for_loop.simps(2))
  next
    case True
    have "(\<exists>i<length (x # xs). f ((x # xs) ! i) = res \<and> (\<forall>j<i. f ((x # xs) ! j) = Inr None))
          \<longleftrightarrow> (\<exists>i<length xs. f (xs ! i) = res \<and> (\<forall>j<i. f (xs ! j) = Inr None))"
      (is "?A \<longleftrightarrow> ?B")
    proof
      assume ?A
      then obtain i where i: "i < length (x # xs)" "f ((x # xs) ! i) = res"
        "\<forall>j<i. f ((x # xs) ! j) = Inr None" by blast
      from i(2) True assms have "i \<noteq> 0" by (cases i) auto
      then obtain k where k: "i = Suc k" by (cases i) auto
      have "\<forall>j<k. f (xs ! j) = Inr None"
      proof (intro allI impI)
        fix j assume "j < k"
        then have "Suc j < i" using k by simp
        with i(3) have "f ((x # xs) ! Suc j) = Inr None" by blast
        then show "f (xs ! j) = Inr None" by simp
      qed
      with i k show ?B by auto
    next
      assume ?B
      then obtain k where k: "k < length xs" "f (xs ! k) = res"
        "\<forall>j<k. f (xs ! j) = Inr None" by blast
      have "\<forall>j<Suc k. f ((x # xs) ! j) = Inr None"
      proof (intro allI impI)
        fix j assume "j < Suc k"
        then show "f ((x # xs) ! j) = Inr None"
          using k(3) True by (cases j) auto
      qed
      with k show ?A by (intro exI[of _ "Suc k"]) auto
    qed
    with Cons True show ?thesis by (simp add: for_loop_Cons_if del: for_loop.simps(2))
  qed
qed

lemma length_py_range: "length (py_range n) = nat n"
  by (simp add: py_range_def)

lemma nth_py_range: "i < nat n \<Longrightarrow> py_range n ! i = int i"
  by (simp add: py_range_def)

lemma set_py_range: "set (py_range n) = {i. 0 \<le> i \<and> i < n}"
proof -
  have "\<And>i. 0 \<le> i \<Longrightarrow> i < n \<Longrightarrow> i \<in> int ` {0..<nat n}"
  proof -
    fix i :: int assume "0 \<le> i" "i < n"
    then have "nat i \<in> {0..<nat n}" "i = int (nat i)" by auto
    then show "i \<in> int ` {0..<nat n}" by (metis imageI)
  qed
  then show ?thesis by (auto simp: py_range_def)
qed

lemma range_loop_None_iff:
  "for_loop (py_range n) f = Inr None \<longleftrightarrow> (\<forall>i. 0 \<le> i \<and> i < n \<longrightarrow> f i = Inr None)"
  by (auto simp: for_loop_None_iff set_py_range)

lemma range_loop_stop_iff:
  assumes "res \<noteq> Inr None"
  shows "for_loop (py_range n) f = res \<longleftrightarrow>
     (\<exists>i. 0 \<le> i \<and> i < n \<and> f i = res \<and> (\<forall>j. 0 \<le> j \<and> j < i \<longrightarrow> f j = Inr None))"
    (is "?L \<longleftrightarrow> ?R")
proof
  assume ?L
  then obtain k where k: "k < nat n" "f (py_range n ! k) = res"
    "\<forall>j<k. f (py_range n ! j) = Inr None"
    using for_loop_stop_iff[OF assms, of "py_range n" f] by (auto simp: length_py_range)
  have "\<forall>j. 0 \<le> j \<and> j < int k \<longrightarrow> f j = Inr None"
  proof (intro allI impI)
    fix j :: int assume j: "0 \<le> j \<and> j < int k"
    then have lt: "nat j < k" by auto
    with k(3) have "f (py_range n ! nat j) = Inr None" by blast
    moreover have "nat j < nat n" using lt k(1) by linarith
    then have "py_range n ! nat j = int (nat j)" by (rule nth_py_range)
    ultimately show "f j = Inr None" using j by simp
  qed
  with k(1,2) show ?R by (intro exI[of _ "int k"]) (auto simp: nth_py_range)
next
  assume ?R
  then obtain i where i: "0 \<le> i" "i < n" "f i = res"
    "\<forall>j. 0 \<le> j \<and> j < i \<longrightarrow> f j = Inr None" by blast
  have a: "nat i < length (py_range n)" using i by (simp add: length_py_range)
  have b: "f (py_range n ! nat i) = res" using i by (simp add: nth_py_range)
  have c: "\<forall>j<nat i. f (py_range n ! j) = Inr None"
  proof (intro allI impI)
    fix j assume "j < nat i"
    then have "j < nat n" "int j < i" using i by auto
    then show "f (py_range n ! j) = Inr None" using i(4) by (simp add: nth_py_range)
  qed
  from a b c show ?L using for_loop_stop_iff[OF assms, of "py_range n" f] by blast
qed

text \<open>Two nested loops: the outer index first.\<close>

lemma scan_None_iff:
  "for_loop (py_range m) (\<lambda>i. for_loop (py_range n) (\<lambda>j. body i j)) = Inr None \<longleftrightarrow>
     (\<forall>i j. 0 \<le> i \<and> i < m \<and> 0 \<le> j \<and> j < n \<longrightarrow> body i j = Inr None)"
  unfolding range_loop_None_iff by blast

lemma scan_stop_iff:
  assumes "res \<noteq> Inr None"
  shows "for_loop (py_range m) (\<lambda>i. for_loop (py_range n) (\<lambda>j. body i j)) = res \<longleftrightarrow>
     (\<exists>i j. 0 \<le> i \<and> i < m \<and> 0 \<le> j \<and> j < n \<and> body i j = res \<and>
        (\<forall>i' j'. 0 \<le> i' \<and> i' < m \<and> 0 \<le> j' \<and> j' < n \<and> (i' < i \<or> (i' = i \<and> j' < j))
            \<longrightarrow> body i' j' = Inr None))"
    (is "?L \<longleftrightarrow> ?R")
proof
  assume ?L
  then obtain i where i: "0 \<le> i" "i < m" "for_loop (py_range n) (\<lambda>j. body i j) = res"
    "\<forall>i'. 0 \<le> i' \<and> i' < i \<longrightarrow> for_loop (py_range n) (\<lambda>j. body i' j) = Inr None"
    unfolding range_loop_stop_iff[OF assms, of m] by blast
  from i(3) obtain j where j: "0 \<le> j" "j < n" "body i j = res"
    "\<forall>j'. 0 \<le> j' \<and> j' < j \<longrightarrow> body i j' = Inr None"
    unfolding range_loop_stop_iff[OF assms, of n] by blast
  have "body i' j' = Inr None"
    if "0 \<le> i' \<and> i' < m \<and> 0 \<le> j' \<and> j' < n \<and> (i' < i \<or> (i' = i \<and> j' < j))" for i' j'
  proof (cases "i' < i")
    case True
    then have "for_loop (py_range n) (\<lambda>j. body i' j) = Inr None" using i(4) that by blast
    then show ?thesis unfolding range_loop_None_iff using that by blast
  next
    case False
    then have "i' = i" "j' < j" using that by auto
    then show ?thesis using j(4) that by blast
  qed
  with i(1,2) j(1,2,3) show ?R by blast
next
  assume ?R
  then obtain i j where ij: "0 \<le> i" "i < m" "0 \<le> j" "j < n" "body i j = res"
    and before: "\<forall>i' j'. 0 \<le> i' \<and> i' < m \<and> 0 \<le> j' \<and> j' < n \<and> (i' < i \<or> (i' = i \<and> j' < j))
            \<longrightarrow> body i' j' = Inr None" by blast
  have "\<forall>j'. 0 \<le> j' \<and> j' < j \<longrightarrow> body i j' = Inr None"
    using before ij by auto
  with ij have inner: "for_loop (py_range n) (\<lambda>j. body i j) = res"
    unfolding range_loop_stop_iff[OF assms, of n "\<lambda>j. body i j"] by blast
  have outer: "for_loop (py_range n) (\<lambda>j. body i' j) = Inr None" if "0 \<le> i' \<and> i' < i" for i'
    unfolding range_loop_None_iff using before that ij(2) by auto
  from ij(1,2) inner outer show ?L
    unfolding range_loop_stop_iff[OF assms, of m "\<lambda>i. for_loop (py_range n) (\<lambda>j. body i j)"]
    by blast
qed

subsection \<open>Reading a rectangular grid\<close>

lemma shape_rows: "shape g = (x, y) \<Longrightarrow> x = int (length g)"
  by (simp add: shape_def)

lemma grid_row_length:
  assumes "is_grid g" "shape g = (x, y)" "0 \<le> a" "a < x"
  shows "int (length (g ! nat a)) = y"
proof -
  from assms have len: "nat a < length g" by (auto simp: shape_def)
  then obtain r rs where g: "g = r # rs" by (cases g) auto
  from assms(2) g have y: "y = int (length r)" by (simp add: shape_def)
  from len have "g ! nat a \<in> set g" by simp
  with assms(1) have "length (g ! nat a) = length (hd g)"
    by (simp add: is_grid_def list_all_iff)
  with g y show ?thesis by simp
qed

lemma cell_in_range:
  assumes "is_grid g" "shape g = (x, y)" "0 \<le> a" "a < x" "0 \<le> b" "b < y"
  shows "cell g a b = Inr (g ! nat a ! nat b)"
proof -
  from assms have "a < int (length g)" by (auto simp: shape_def)
  with assms(3) have "idx g a = Inr (g ! nat a)" by (simp add: idx_def)
  moreover have "idx (g ! nat a) b = Inr (g ! nat a ! nat b)"
    using grid_row_length[OF assms(1-4)] assms(5,6) by (simp add: idx_def)
  ultimately show ?thesis by (simp add: cell_def err_bind_simps)
qed



text \<open>A scan whose body cannot raise on the cells of the grid does not raise.\<close>

lemma scan_total:
  assumes "\<And>i j. 0 \<le> i \<Longrightarrow> i < m \<Longrightarrow> 0 \<le> j \<Longrightarrow> j < n \<Longrightarrow> \<exists>r. body i j = Inr r"
  shows "\<exists>r. for_loop (py_range m) (\<lambda>i. for_loop (py_range n) (\<lambda>j. body i j)) = Inr r"
proof (cases "for_loop (py_range m) (\<lambda>i. for_loop (py_range n) (\<lambda>j. body i j))")
  case (Inl e)
  have "Inl e \<noteq> (Inr None :: error + 'a option)" by simp
  from Inl obtain i j where "0 \<le> i" "i < m" "0 \<le> j" "j < n" "body i j = Inl e"
    unfolding scan_stop_iff[OF \<open>Inl e \<noteq> Inr None\<close>] by blast
  with assms[of i j] show ?thesis by auto
next
  case (Inr r)
  then show ?thesis by blast
qed

lemma or_return_Inr: "or_return (Inr r) d = Inr (case r of None \<Rightarrow> d | Some v \<Rightarrow> v)"
  by (simp add: or_return_def split: option.splits)

lemma find_enemy_total:
  assumes "is_grid g"
  shows "\<exists>r. find_enemy g = Inr r"
proof -
  obtain x y where sh: "shape g = (x, y)" by (cases "shape g")
  have "\<exists>r. for_loop (py_range x) (\<lambda>a. for_loop (py_range y) (\<lambda>b.
           err_bind (cell g a b) (\<lambda>v.
             if v \<ge> element_value GUMBA then Inr (Some (a, b)) else Inr None))) = Inr r"
    by (rule scan_total) (simp add: cell_in_range[OF assms sh] err_bind_simps)
  then show ?thesis by (auto simp: find_enemy_def sh or_return_Inr)
qed

lemma get_enemy_dist_total:
  assumes "is_grid g"
  shows "\<exists>r. get_enemy_dist row col g = Inr r"
proof -
  obtain x y where sh: "shape g = (x, y)" by (cases "shape g")
  have "\<exists>r. for_loop (py_range y) (\<lambda>b. for_loop (py_range x) (\<lambda>a.
           enemy_dist_body row col g a b)) = Inr r"
    by (rule scan_total) (simp add: enemy_dist_body_def cell_in_range[OF assms sh] err_bind_simps)
  then show ?thesis by (auto simp: get_enemy_dist_def sh or_return_Inr)
qed


subsection \<open>Evaluation on concrete grids\<close>

lemma py_range_0: "py_range 0 = []"
  by (simp add: py_range_def)

lemma py_range_1: "py_range 1 = [0]"
  by (simp add: py_range_def)

lemma py_range_step: "0 < n \<Longrightarrow> py_range n = py_range (n - 1) @ [n - 1]"
proof -
  assume "0 < n"
  then have "nat n = Suc (nat (n - 1))" by arith
  moreover have "int (nat (n - 1)) = n - 1" using \<open>0 < n\<close> by simp
  ultimately show ?thesis unfolding py_range_def by simp
qed

lemma py_range_numeral: "py_range (numeral k) = py_range (numeral k - 1) @ [numeral k - 1]"
  by (rule py_range_step) simp

lemma sqrt_le_iff: "0 \<le> c \<Longrightarrow> sqrt x \<le> c \<longleftrightarrow> x \<le> c * c"
  by (metis abs_of_nonneg real_sqrt_abs2 real_sqrt_le_iff)

lemma sqrt_less_iff: "0 \<le> c \<Longrightarrow> sqrt x < c \<longleftrightarrow> x < c * c"
  by (metis abs_of_nonneg real_sqrt_abs2 real_sqrt_less_iff)

lemma sqrt_ge_iff: "0 \<le> c \<Longrightarrow> c \<le> sqrt x \<longleftrightarrow> c * c \<le> x"
  by (metis abs_of_nonneg real_sqrt_abs2 real_sqrt_le_iff)

lemma sqrt_gt_iff: "0 \<le> c \<Longrightarrow> c < sqrt x \<longleftrightarrow> c * c < x"
  by (metis abs_of_nonneg real_sqrt_abs2 real_sqrt_less_iff)

lemmas eval_grid = shape_def is_grid_def py_range_0 py_range_1 py_range_numeral or_return_def
  err_bind_simps cell_def idx_def eq_cell_def py_and_def py_or_def

lemma sqrt_scaled: "0 < k \<Longrightarrow> sqrt x * k = sqrt (x * (k * k))"
  by (simp add: real_sqrt_mult)

lemma sqrt_mult_le_iff: "0 \<le> c \<Longrightarrow> 0 < k \<Longrightarrow> sqrt x * k \<le> c \<longleftrightarrow> x * (k * k) \<le> c * c"
  by (simp only: sqrt_scaled sqrt_le_iff)

lemma sqrt_mult_less_iff: "0 \<le> c \<Longrightarrow> 0 < k \<Longrightarrow> sqrt x * k < c \<longleftrightarrow> x * (k * k) < c * c"
  by (simp only: sqrt_scaled sqrt_less_iff)

lemma sqrt_mult_ge_iff: "0 \<le> c \<Longrightarrow> 0 < k \<Longrightarrow> c \<le> sqrt x * k \<longleftrightarrow> c * c \<le> x * (k * k)"
  by (simp only: sqrt_scaled sqrt_ge_iff)

lemma sqrt_mult_gt_iff: "0 \<le> c \<Longrightarrow> 0 < k \<Longrightarrow> c < sqrt x * k \<longleftrightarrow> c * c < x * (k * k)"
  by (simp only: sqrt_scaled sqrt_gt_iff)

lemmas eval_dist = get_distance_def sqrt_le_iff sqrt_less_iff sqrt_ge_iff sqrt_gt_iff
  sqrt_mult_le_iff sqrt_mult_less_iff sqrt_mult_ge_iff sqrt_mult_gt_iff

lemmas eval_queries = find_mario_def find_enemy_def get_enemy_dist_def enemy_dist_body_def
  check_obstacle_def obstacle_body_def check_empty_jump_def empty_jump_body_def
  check_on_ground_def on_ground_body_def check_power_up_def power_up_body_def Let_def

lemmas eval_engine = select_action_def choose_action_def react_to_enemy_def react_to_gap_def
  react_to_power_up_def react_to_obstacle_def

subsection \<open>The decision engine\<close>

lemma action_value_inj: "action_value a = action_value b \<longleftrightarrow> a = b"
  by (cases a; cases b) simp_all

lemma action_value_eq_iff:
  "action_value a = 10 \<longleftrightarrow> a = JUMP_RIGHT"
  "action_value a = 3 \<longleftrightarrow> a = UP"
  by (cases a; simp)+

lemma select_action_unfold:
  assumes "find_mario (game_area env) = Inr (row, col)"
    and "find_enemy (game_area env) = Inr (enemy_row, enemy_col)"
    and "get_enemy_dist row col (game_area env) = Inr (enemy_dist, enemy_type)"
    and "check_obstacle row col (game_area env) = Inr obstacle_check"
    and "row < 14"
    and "cell (game_area env) (row + 2) col = Inr below"
  shows "select_action h env =
          (if below = element_value PIPE then
             (if prev_action h \<in> {JUMP, JUMP_EMPTY, JUMP_OBS, JUMP_POWER_UP} then Inr UP
              else Inr JUMP_RIGHT)
           else if enemy_row < row \<and> enemy_col > col \<and> enemy_dist < 6 then Inr LEFT
           else if row + 2 \<le> enemy_row \<and> enemy_row \<noteq> 0 \<and> prev_action h \<in> {RIGHT}
                   \<and> (below \<noteq> element_value EMPTY \<and> enemy_dist < 7) then Inr JUMP_EMPTY
           else if enemy_dist \<le> 9 / 2 then
             Inr (react_to_enemy (prev_action h) row enemy_row enemy_dist enemy_type)
           else
             err_bind (check_empty_jump row col (game_area env)) (\<lambda>gap.
               if gap then Inr (react_to_gap (prev_action h) env)
               else
                 err_bind (check_power_up row col (game_area env)) (\<lambda>power_up.
                   if power_up = Some True then Inr (react_to_power_up (prev_action h))
                   else if obstacle_check \<in> {ObstacleFound, FoundStairs} then
                     Inr (react_to_obstacle h (x_position env) obstacle_check)
                   else if row = 0 then Inr UP
                   else Inr RIGHT)))"
  using assms by (simp add: select_action_def err_bind_simps)

lemma select_action_queries:
  assumes "select_action h env = Inr act"
  obtains row col enemy_row enemy_col enemy_dist enemy_type obstacle_check where
    "find_mario (game_area env) = Inr (row, col)"
    "find_enemy (game_area env) = Inr (enemy_row, enemy_col)"
    "get_enemy_dist row col (game_area env) = Inr (enemy_dist, enemy_type)"
    "check_obstacle row col (game_area env) = Inr obstacle_check"
    "row < 14 \<longrightarrow> (\<exists>below. cell (game_area env) (row + 2) col = Inr below)"
    "\<not> row < 14 \<longrightarrow> act = UP"
proof -
  from assms obtain row col where fm: "find_mario (game_area env) = Inr (row, col)"
    by (cases "find_mario (game_area env)") (auto simp: select_action_def err_bind_simps)
  from assms fm obtain enemy_row enemy_col
    where fe: "find_enemy (game_area env) = Inr (enemy_row, enemy_col)"
    by (cases "find_enemy (game_area env)") (auto simp: select_action_def err_bind_simps)
  from assms fm fe obtain enemy_dist enemy_type
    where ged: "get_enemy_dist row col (game_area env) = Inr (enemy_dist, enemy_type)"
    by (cases "get_enemy_dist row col (game_area env)")
       (auto simp: select_action_def err_bind_simps)
  from assms fm fe ged obtain obstacle_check
    where co: "check_obstacle row col (game_area env) = Inr obstacle_check"
    by (cases "check_obstacle row col (game_area env)")
       (auto simp: select_action_def err_bind_simps)
  from assms fm fe ged co
  have "row < 14 \<longrightarrow> (\<exists>below. cell (game_area env) (row + 2) col = Inr below)"
    by (cases "cell (game_area env) (row + 2) col")
       (auto simp: select_action_def err_bind_simps)
  moreover from assms fm fe ged co have "\<not> row < 14 \<longrightarrow> act = UP"
    by (auto simp: select_action_def err_bind_simps)
  ultimately show thesis using that fm fe ged co by blast
qed

lemma react_to_enemy_near: "d \<le> 9 / 2 \<Longrightarrow> react_to_enemy prev row er d t \<noteq> JUMP_RIGHT"
  by (simp add: react_to_enemy_def)

lemma react_to_gap_not_jump_right: "react_to_gap prev env \<noteq> JUMP_RIGHT"
  by (simp add: react_to_gap_def)

lemma react_to_power_up_not_jump_right: "react_to_power_up prev \<noteq> JUMP_RIGHT"
  by (simp add: react_to_power_up_def)

lemma react_to_obstacle_not_jump_right: "react_to_obstacle h x oc \<noteq> JUMP_RIGHT"
  by (simp add: react_to_obstacle_def)

lemma find_mario_nonneg:
  assumes "find_mario g = Inr (row, col)"
  shows "0 \<le> row \<and> 0 \<le> col"
proof -
  obtain x y where sh: "shape g = (x, y)" by (cases "shape g")
  let ?body = "\<lambda>a b. err_bind (cell g a b) (\<lambda>v. if v = 1 then Inr (Some (a, b + 1)) else Inr None)"
  let ?scan = "for_loop (py_range x) (\<lambda>a. for_loop (py_range y) (\<lambda>b. ?body a b))"
  from assms sh have r: "or_return ?scan (0, 0) = Inr (row, col)"
    by (simp add: find_mario_def)
  show ?thesis
  proof (cases "?scan = Inr (Some (row, col))")
    case False
    with r have "(row, col) = (0, 0)"
      by (auto simp: or_return_def split: sum.splits option.splits)
    then show ?thesis by simp
  next
    case True
    have ne: "Inr (Some (row, col)) \<noteq> (Inr None :: error + (int \<times> int) option)" by simp
    from True have "\<exists>a b. 0 \<le> a \<and> a < x \<and> 0 \<le> b \<and> b < y \<and> ?body a b = Inr (Some (row, col)) \<and>
        (\<forall>a' b'. 0 \<le> a' \<and> a' < x \<and> 0 \<le> b' \<and> b' < y \<and> (a' < a \<or> (a' = a \<and> b' < b))
            \<longrightarrow> ?body a' b' = Inr None)"
      by (rule iffD1[OF scan_stop_iff[OF ne, of x y ?body]])
    then obtain a b where "0 \<le> a" "0 \<le> b" "?body a b = Inr (Some (row, col))" by blast
    then show ?thesis
      by (cases "cell g a b") (auto simp: err_bind_simps split: if_splits)
  qed
qed

lemma choose_action_result:
  assumes "choose_action h env = Inr (v, h1)"
  shows "v = action_value (prev_action h1)" "prev_action h = UP \<Longrightarrow> prev_action h1 \<noteq> UP"
  using assms
  by (cases "select_action h env"; auto simp: choose_action_def err_bind_simps Let_def split: if_splits)+

lemma decisions_no_repeated_up:
  assumes "decisions h envs = Inr (vs, h')"
  shows "(prev_action h = UP \<longrightarrow> vs \<noteq> [] \<longrightarrow> hd vs \<noteq> action_value UP)
       \<and> (\<forall>i. Suc i < length vs \<longrightarrow> \<not> (vs ! i = action_value UP \<and> vs ! Suc i = action_value UP))"
  using assms
proof (induction envs arbitrary: h vs)
  case Nil
  then show ?case by simp
next
  case (Cons env envs)
  from Cons.prems obtain v h1 where ca: "choose_action h env = Inr (v, h1)"
    by (cases "choose_action h env") (auto simp: err_bind_simps)
  with Cons.prems obtain vs' where rest: "decisions h1 envs = Inr (vs', h')" and vs: "vs = v # vs'"
    by (cases "decisions h1 envs") (auto simp: err_bind_simps)
  note ih = Cons.IH[OF rest]
  note res = choose_action_result[OF ca]
  have first: "prev_action h = UP \<longrightarrow> v \<noteq> action_value UP"
    using res by (auto simp: action_value_eq_iff)
  have pairs: "\<not> (vs ! i = action_value UP \<and> vs ! Suc i = action_value UP)"
    if "Suc i < length vs" for i
  proof (cases i)
    case 0
    show ?thesis
    proof
      assume both: "vs ! i = action_value UP \<and> vs ! Suc i = action_value UP"
      with 0 vs res(1) have "prev_action h1 = UP" by (simp add: action_value_eq_iff)
      moreover from that vs have "vs' \<noteq> []" by auto
      ultimately have "hd vs' \<noteq> action_value UP" using ih by blast
      moreover from both 0 vs \<open>vs' \<noteq> []\<close> have "hd vs' = action_value UP"
        by (cases vs') auto
      ultimately show False by contradiction
    qed
  next
    case (Suc k)
    with that vs have "Suc k < length vs'" by simp
    with ih have "\<not> (vs' ! k = action_value UP \<and> vs' ! Suc k = action_value UP)" by blast
    with Suc vs show ?thesis by simp
  qed
  from first pairs vs show ?case by simp
qed

subsection \<open>The actuator\<close>

lemma held_after_append: "held_after (xs @ ys) s = held_after ys (held_after xs s)"
  by (induction xs arbitrary: s) simp_all

lemma held_after_ticks: "held_after (replicate n Tick) s = s"
  by (induction n) simp_all

lemma pressed_append: "pressed (xs @ ys) = pressed xs \<union> pressed ys"
  by (induction xs rule: pressed.induct) simp_all

lemma pressed_ticks: "pressed (replicate n Tick) = {}"
  by (induction n) simp_all

lemma release_twice: "actuate (Send_input (RELEASE b)) (actuate (Send_input (RELEASE b)) s)
    = actuate (Send_input (RELEASE b)) s"
  by auto

lemmas eval_calls = recipe_def run_action_def send_input_def ticks_def valid_actions_def
  release_button_def idx_def err_bind_simps held_after_append held_after_ticks pressed_append
  pressed_ticks

subsection \<open>The power-up check\<close>

lemma power_up_body_True_iff:
  assumes "cell g a b = Inr v"
  shows "power_up_body row col g a b = Inr (Some True) \<longleftrightarrow>
     v = element_value POWERUP \<and> check_on_ground row col g = Inr True \<and> a \<le> row \<and> col \<le> b
     \<and> get_distance row col a b \<le> 3 \<and> cell g (row + 2) col = Inr (element_value GROUND)"
  using assms
  by (cases "check_on_ground row col g"; cases "cell g (row + 2) col")
     (auto simp: power_up_body_def py_and_def eq_cell_def err_bind_simps)

lemma power_up_body_None_iff:
  assumes "cell g a b = Inr v" "check_on_ground row col g = Inr True"
  shows "power_up_body row col g a b = Inr None \<longleftrightarrow>
     \<not> (v = element_value POWERUP \<and> a \<le> row \<and> col \<le> b)"
  using assms
  by (cases "cell g (row + 2) col")
     (auto simp: power_up_body_def py_and_def eq_cell_def err_bind_simps)

subsection \<open>The gap check\<close>

lemma empty_jump_body_cases:
  assumes grid: "is_grid g" and sh: "shape g = (x, y)"
    and ab: "0 \<le> a" "a < x" "0 \<le> b" "b < y" and col: "2 \<le> col"
  shows "empty_jump_body row col g a b =
     (if cell g a b = Inr (element_value EMPTY) \<and> a = row + 2 \<and> col < b
         \<and> ((cell g a (b - 1) = Inr (element_value GROUND)
               \<and> cell g a (b - 2) = Inr (element_value GROUND)
               \<and> cell g a (b - 3) = Inr (element_value GROUND))
            \<or> (cell g a (b - 1) = Inr (element_value BLOCK)
               \<and> cell g a (b - 2) = Inr (element_value BLOCK)
               \<and> cell g a (b - 3) = Inr (element_value BLOCK)))
         \<and> get_distance row col a b \<le> 29 / 10
      then Inr (Some True) else Inr None)"
proof (cases "col < b \<and> a = row + 2")
  case False
  then show ?thesis
    using cell_in_range[OF grid sh ab]
    by (auto simp: empty_jump_body_def err_bind_simps)
next
  case True
  then have a: "a = row + 2" and cb: "col < b" by simp_all
  from cb col have b3: "0 \<le> b - 3" "b - 3 < y" "0 \<le> b - 2" "b - 2 < y" "0 \<le> b - 1" "b - 1 < y"
    using ab by auto
  note c0 = cell_in_range[OF grid sh ab, unfolded a]
  note c1 = cell_in_range[OF grid sh ab(1,2) b3(5,6), unfolded a]
  note c2 = cell_in_range[OF grid sh ab(1,2) b3(3,4), unfolded a]
  note c3 = cell_in_range[OF grid sh ab(1,2) b3(1,2), unfolded a]
  show ?thesis
    unfolding a
    by (simp add: empty_jump_body_def eq_cell_def py_and_def py_or_def err_bind_simps
        c0 c1 c2 c3 cb)
qed

section \<open>The claims\<close>

subsection \<open>C4: the nearest hostile ahead\<close>

text \<open>
  C4. On a rectangular game area \<^verbatim>\<open>get_enemy_dist\<close> does not raise, and it returns one of
  two things. Either a cell \<open>(a, b)\<close> of the area holding a tile \<open>v \<ge> 15\<close> in a column
  \<open>b \<ge> col\<close>, such that every cell of a column \<open>\<ge> col\<close> that the column-major scan
  visits earlier (a column further left, or the same column higher up) holds a tile below
  15: then the result is the Euclidean distance from \<open>(row, col)\<close> to \<open>(a, b)\<close> paired
  with \<open>v\<close>. Or no cell in a column \<open>\<ge> col\<close> holds a tile \<open>\<ge> 15\<close>: then the result is
  the distance 10000 paired with \<^verbatim>\<open>None\<close>. So the hostile returned is never in a column
  left of the agent's.
\<close>

theorem get_enemy_dist_first_ahead:
  assumes grid: "is_grid g" and sh: "shape g = (x, y)"
  shows "(\<exists>a b v. 0 \<le> a \<and> a < x \<and> 0 \<le> b \<and> b < y \<and> col \<le> b
            \<and> cell g a b = Inr v \<and> 15 \<le> v
            \<and> get_enemy_dist row col g =
                Inr (sqrt (real_of_int ((b - col) * (b - col) + (a - row) * (a - row))), Some v)
            \<and> (\<forall>a' b'. 0 \<le> a' \<and> a' < x \<and> 0 \<le> b' \<and> b' < y \<and> col \<le> b'
                   \<and> (b' < b \<or> (b' = b \<and> a' < a))
                 \<longrightarrow> (\<exists>v'. cell g a' b' = Inr v' \<and> v' < 15)))
       \<or> (get_enemy_dist row col g = Inr (10000, None)
            \<and> (\<forall>a b. 0 \<le> a \<and> a < x \<and> 0 \<le> b \<and> b < y \<and> col \<le> b
                 \<longrightarrow> (\<exists>v. cell g a b = Inr v \<and> v < 15)))"
proof -
  let ?body = "\<lambda>b a. enemy_dist_body row col g a b"
  let ?scan = "for_loop (py_range y) (\<lambda>b. for_loop (py_range x) (\<lambda>a. ?body b a))"
  have ged: "get_enemy_dist row col g = or_return ?scan (10000, None)"
    by (simp add: get_enemy_dist_def sh)
  have none: "\<exists>v. cell g a b = Inr v \<and> v < 15"
    if "?body b a = Inr None" "0 \<le> a \<and> a < x \<and> 0 \<le> b \<and> b < y \<and> col \<le> b" for a b
  proof -
    from that(2) have "cell g a b = Inr (g ! nat a ! nat b)"
      using cell_in_range[OF grid sh] by blast
    with that show ?thesis
      by (auto simp: enemy_dist_body_def err_bind_simps split: if_splits)
  qed
  obtain r where r: "?scan = Inr r"
    using get_enemy_dist_total[OF grid, of row col]
    by (cases ?scan) (auto simp: ged or_return_def)
  show ?thesis
  proof (cases r)
    case None
    with r have "?scan = Inr None" by simp
    then have all: "\<forall>b a. 0 \<le> b \<and> b < y \<and> 0 \<le> a \<and> a < x \<longrightarrow> ?body b a = Inr None"
      using scan_None_iff[of y x ?body] by simp
    have "\<forall>a b. 0 \<le> a \<and> a < x \<and> 0 \<le> b \<and> b < y \<and> col \<le> b
                 \<longrightarrow> (\<exists>v. cell g a b = Inr v \<and> v < 15)"
      using all none by blast
    moreover have "get_enemy_dist row col g = Inr (10000, None)"
      using r None by (simp add: ged or_return_def)
    ultimately show ?thesis by blast
  next
    case (Some found)
    have ne: "Inr (Some found) \<noteq> (Inr None :: error + (real \<times> int option) option)" by simp
    from r Some have "?scan = Inr (Some found)" by simp
    then have "\<exists>b a. 0 \<le> b \<and> b < y \<and> 0 \<le> a \<and> a < x \<and> ?body b a = Inr (Some found) \<and>
        (\<forall>b' a'. 0 \<le> b' \<and> b' < y \<and> 0 \<le> a' \<and> a' < x \<and> (b' < b \<or> (b' = b \<and> a' < a))
            \<longrightarrow> ?body b' a' = Inr None)"
      by (rule iffD1[OF scan_stop_iff[OF ne, of y x ?body]])
    then obtain b a where ba: "0 \<le> b" "b < y" "0 \<le> a" "a < x"
      and here: "?body b a = Inr (Some found)"
      and before: "\<forall>b' a'. 0 \<le> b' \<and> b' < y \<and> 0 \<le> a' \<and> a' < x \<and> (b' < b \<or> (b' = b \<and> a' < a))
                     \<longrightarrow> ?body b' a' = Inr None"
      by blast
    have c: "cell g a b = Inr (g ! nat a ! nat b)"
      using cell_in_range[OF grid sh] ba by blast
    from here c have v: "15 \<le> g ! nat a ! nat b" "col \<le> b"
      and found: "found = (get_distance row col a b, Some (g ! nat a ! nat b))"
      by (auto simp: enemy_dist_body_def err_bind_simps split: if_splits)
    have "get_enemy_dist row col g =
            Inr (sqrt (real_of_int ((b - col) * (b - col) + (a - row) * (a - row))),
                 Some (g ! nat a ! nat b))"
      using r Some found by (simp add: ged or_return_def get_distance_def)
    moreover have "\<forall>a' b'. 0 \<le> a' \<and> a' < x \<and> 0 \<le> b' \<and> b' < y \<and> col \<le> b'
                   \<and> (b' < b \<or> (b' = b \<and> a' < a))
                 \<longrightarrow> (\<exists>v'. cell g a' b' = Inr v' \<and> v' < 15)"
      using before none by blast
    ultimately show ?thesis using ba c v by blast
  qed
qed

theorem get_enemy_dist_first_ahead_witness:
  "is_grid two_enemies \<and> shape two_enemies = (2, 3)
   \<and> get_enemy_dist 0 1 two_enemies = Inr (1, Some 16)
   \<and> ((\<exists>a b v. 0 \<le> a \<and> a < 2 \<and> 0 \<le> b \<and> b < 3 \<and> 1 \<le> b
            \<and> cell two_enemies a b = Inr v \<and> 15 \<le> v
            \<and> get_enemy_dist 0 1 two_enemies =
                Inr (sqrt (real_of_int ((b - 1) * (b - 1) + (a - 0) * (a - 0))), Some v)
            \<and> (\<forall>a' b'. 0 \<le> a' \<and> a' < 2 \<and> 0 \<le> b' \<and> b' < 3 \<and> 1 \<le> b'
                   \<and> (b' < b \<or> (b' = b \<and> a' < a))
                 \<longrightarrow> (\<exists>v'. cell two_enemies a' b' = Inr v' \<and> v' < 15)))
       \<or> (get_enemy_dist 0 1 two_enemies = Inr (10000, None)
            \<and> (\<forall>a b. 0 \<le> a \<and> a < 2 \<and> 0 \<le> b \<and> b < 3 \<and> 1 \<le> b
                 \<longrightarrow> (\<exists>v. cell two_enemies a b = Inr v \<and> v < 15))))"
proof -
  have g: "is_grid two_enemies" by (simp add: two_enemies_def eval_grid)
  have sh: "shape two_enemies = (2, 3)" by (simp add: two_enemies_def eval_grid)
  have v: "get_enemy_dist 0 1 two_enemies = Inr (1, Some 16)"
    by (simp add: get_enemy_dist_def enemy_dist_body_def two_enemies_def eval_grid get_distance_def)
  from get_enemy_dist_first_ahead[OF g sh, of 1 0] g sh v show ?thesis by blast
qed

subsection \<open>C10: the agent in the last column\<close>



subsection \<open>C9: where \<^verbatim>\<open>JUMP_RIGHT\<close> comes from\<close>

text \<open>
  C9. Whenever \<^verbatim>\<open>choose_action\<close> returns the value of \<^verbatim>\<open>JUMP_RIGHT\<close>, the agent's row is
  below 14, the cell two rows below the agent is a PIPE and the previous action is none of
  \<^verbatim>\<open>JUMP\<close>, \<^verbatim>\<open>JUMP_EMPTY\<close>, \<^verbatim>\<open>JUMP_OBS\<close>, \<^verbatim>\<open>JUMP_POWER_UP\<close>: the action comes from the
  pipe branch only. The reaction to an enemy, which is evaluated only under
  \<^verbatim>\<open>enemy_dist <= 4.5\<close>, never yields \<^verbatim>\<open>JUMP_RIGHT\<close> there: its branch for a distance of
  5 or more cannot be reached.
\<close>

theorem jump_right_only_off_pipe:
  "(choose_action h env = Inr (action_value JUMP_RIGHT, h') \<longrightarrow>
      (\<exists>row col. find_mario (game_area env) = Inr (row, col) \<and> row < 14
         \<and> cell (game_area env) (row + 2) col = Inr (element_value PIPE)
         \<and> prev_action h \<notin> {JUMP, JUMP_EMPTY, JUMP_OBS, JUMP_POWER_UP}))
   \<and> (enemy_dist \<le> 9 / 2 \<longrightarrow>
        react_to_enemy prev row enemy_row enemy_dist enemy_type \<noteq> JUMP_RIGHT)"
proof (intro conjI impI)
  assume ca: "choose_action h env = Inr (action_value JUMP_RIGHT, h')"
  then obtain selected where sel: "select_action h env = Inr selected"
    by (cases "select_action h env") (auto simp: choose_action_def err_bind_simps)
  with ca have "action_value (if prev_action h = UP \<and> selected = UP then RIGHT else selected)
                  = action_value JUMP_RIGHT"
    by (simp add: choose_action_def err_bind_simps Let_def)
  then have "selected = JUMP_RIGHT"
    by (auto simp: action_value_eq_iff split: if_splits)
  with sel have sel: "select_action h env = Inr JUMP_RIGHT" by simp
  from sel obtain row col enemy_row enemy_col enemy_dist enemy_type obstacle_check where
    q: "find_mario (game_area env) = Inr (row, col)"
      "find_enemy (game_area env) = Inr (enemy_row, enemy_col)"
      "get_enemy_dist row col (game_area env) = Inr (enemy_dist, enemy_type)"
      "check_obstacle row col (game_area env) = Inr obstacle_check"
    and below: "row < 14 \<longrightarrow> (\<exists>below. cell (game_area env) (row + 2) col = Inr below)"
    and top: "\<not> row < 14 \<longrightarrow> JUMP_RIGHT = UP"
    by (rule select_action_queries)
  from top have row: "row < 14" by auto
  with below obtain below where b: "cell (game_area env) (row + 2) col = Inr below" by blast
  note chain = select_action_unfold[OF q row b, of h]
  have "below = element_value PIPE \<and> prev_action h \<notin> {JUMP, JUMP_EMPTY, JUMP_OBS, JUMP_POWER_UP}"
  proof (rule ccontr)
    assume n: "\<not> ?thesis"
    show False
    proof (cases "below = element_value PIPE")
      case True
      with n sel chain show False by auto
    next
      case False
      note np = this
      show False
      proof (cases "enemy_dist \<le> 9 / 2")
        case True
        with sel chain np react_to_enemy_near[OF True] show False
          by (auto split: if_splits)
      next
        case False
        with sel chain np show False
          by (auto simp: err_bind_def react_to_gap_not_jump_right
              react_to_power_up_not_jump_right react_to_obstacle_not_jump_right
              split: if_splits sum.splits)
      qed
    qed
  qed
  with q(1) row b
  show "\<exists>row col. find_mario (game_area env) = Inr (row, col) \<and> row < 14
         \<and> cell (game_area env) (row + 2) col = Inr (element_value PIPE)
         \<and> prev_action h \<notin> {JUMP, JUMP_EMPTY, JUMP_OBS, JUMP_POWER_UP}"
    by blast
next
  assume "enemy_dist \<le> 9 / 2"
  then show "react_to_enemy prev row enemy_row enemy_dist enemy_type \<noteq> JUMP_RIGHT"
    by (rule react_to_enemy_near)
qed

theorem jump_right_only_off_pipe_witness:
  "choose_action \<lparr>prev_action = RIGHT, prev_x = 0\<rparr>
      \<lparr>game_area = pipe_grid, x_position = 7, world = 1, stage = 1\<rparr>
     = Inr (action_value JUMP_RIGHT, \<lparr>prev_action = JUMP_RIGHT, prev_x = 7\<rparr>)
   \<and> (\<exists>row col. find_mario pipe_grid = Inr (row, col) \<and> row < 14
         \<and> cell pipe_grid (row + 2) col = Inr (element_value PIPE)
         \<and> RIGHT \<notin> {JUMP, JUMP_EMPTY, JUMP_OBS, JUMP_POWER_UP})
   \<and> (4 :: real) \<le> 9 / 2
   \<and> react_to_enemy JUMP 0 1 4 (Some (element_value GUMBA)) \<noteq> JUMP_RIGHT"
proof -
  let ?h = "\<lparr>prev_action = RIGHT, prev_x = 0\<rparr>"
  let ?env = "\<lparr>game_area = pipe_grid, x_position = 7, world = 1, stage = 1\<rparr>"
  have ca: "choose_action ?h ?env
     = Inr (action_value JUMP_RIGHT, \<lparr>prev_action = JUMP_RIGHT, prev_x = 7\<rparr>)"
    by (simp add: pipe_grid_def eval_engine eval_queries eval_grid eval_dist)
  have near: "(4 :: real) \<le> 9 / 2" by simp
  from jump_right_only_off_pipe[of ?h ?env "\<lparr>prev_action = JUMP_RIGHT, prev_x = 7\<rparr>" 4
      JUMP 0 1 "Some (element_value GUMBA)"] ca near
  show ?thesis by simp
qed

subsection \<open>C7: no two \<^verbatim>\<open>UP\<close> in a row\<close>

text \<open>
  C7. When the previous action is \<^verbatim>\<open>UP\<close> and the rules select \<^verbatim>\<open>UP\<close>, \<^verbatim>\<open>choose_action\<close>
  returns the value of \<^verbatim>\<open>RIGHT\<close> and records \<^verbatim>\<open>RIGHT\<close> as the previous action. Hence in any
  run of decision steps that completes, no two consecutive returned values are both
  \<^verbatim>\<open>UP\<close>.
\<close>

theorem anti_stall:
  "(prev_action h = UP \<and> select_action h env = Inr UP \<longrightarrow>
      choose_action h env =
        Inr (action_value RIGHT, \<lparr>prev_action = RIGHT, prev_x = x_position env\<rparr>))
   \<and> (decisions h envs = Inr (vs, h') \<longrightarrow>
        (\<forall>i. Suc i < length vs \<longrightarrow>
           \<not> (vs ! i = action_value UP \<and> vs ! Suc i = action_value UP)))"
proof (intro conjI impI)
  assume "prev_action h = UP \<and> select_action h env = Inr UP"
  then show "choose_action h env =
        Inr (action_value RIGHT, \<lparr>prev_action = RIGHT, prev_x = x_position env\<rparr>)"
    by (simp add: choose_action_def err_bind_simps)
next
  assume "decisions h envs = Inr (vs, h')"
  from decisions_no_repeated_up[OF this]
  show "\<forall>i. Suc i < length vs \<longrightarrow>
           \<not> (vs ! i = action_value UP \<and> vs ! Suc i = action_value UP)"
    by blast
qed

theorem anti_stall_witness:
  "prev_action \<lparr>prev_action = UP, prev_x = 0\<rparr> = UP
   \<and> select_action \<lparr>prev_action = UP, prev_x = 0\<rparr>
        \<lparr>game_area = blank_grid, x_position = 0, world = 1, stage = 1\<rparr> = Inr UP
   \<and> choose_action \<lparr>prev_action = UP, prev_x = 0\<rparr>
        \<lparr>game_area = blank_grid, x_position = 0, world = 1, stage = 1\<rparr>
       = Inr (action_value RIGHT, \<lparr>prev_action = RIGHT, prev_x = 0\<rparr>)
   \<and> decisions \<lparr>prev_action = UP, prev_x = 0\<rparr>
        [\<lparr>game_area = blank_grid, x_position = 0, world = 1, stage = 1\<rparr>,
         \<lparr>game_area = blank_grid, x_position = 0, world = 1, stage = 1\<rparr>,
         \<lparr>game_area = blank_grid, x_position = 0, world = 1, stage = 1\<rparr>]
       = Inr ([2, 3, 2], \<lparr>prev_action = RIGHT, prev_x = 0\<rparr>)
   \<and> Suc 1 < length [2 :: int, 3, 2]
   \<and> \<not> ([2 :: int, 3, 2] ! 1 = action_value UP \<and> [2 :: int, 3, 2] ! Suc 1 = action_value UP)"
proof -
  let ?env = "\<lparr>game_area = blank_grid, x_position = 0, world = 1, stage = 1\<rparr>"
  have sel: "select_action h ?env = Inr UP" for h
    by (simp add: blank_grid_def eval_engine eval_queries eval_grid eval_dist)
  have ca: "choose_action h ?env =
      Inr (action_value (if prev_action h = UP then RIGHT else UP),
           \<lparr>prev_action = (if prev_action h = UP then RIGHT else UP), prev_x = 0\<rparr>)" for h
    by (simp add: choose_action_def sel err_bind_simps)
  have run: "decisions \<lparr>prev_action = UP, prev_x = 0\<rparr> [?env, ?env, ?env]
       = Inr ([2, 3, 2], \<lparr>prev_action = RIGHT, prev_x = 0\<rparr>)"
    by (simp add: ca err_bind_simps)
  from anti_stall[of "\<lparr>prev_action = UP, prev_x = 0\<rparr>" ?env "[?env, ?env, ?env]" "[2, 3, 2]"
      "\<lparr>prev_action = RIGHT, prev_x = 0\<rparr>"] sel run
  show ?thesis by simp
qed

subsection \<open>C8: every input is released when \<^verbatim>\<open>run_action\<close> returns\<close>

text \<open>
  C8. For every member of \<^verbatim>\<open>Action\<close>, \<^verbatim>\<open>run_action\<close> completes, and its last call
  releases the button of the action that remains after the branch taken. No button
  pressed during the call is held when it returns, no button is held that was not held
  before, and from no button held the call returns with no button held.
\<close>

theorem run_action_releases:
  "\<exists>calls remaining b.
      recipe act_freq (action_value a) = Inr (calls, remaining)
    \<and> idx valid_actions remaining = Inr (PRESS b)
    \<and> run_action act_freq (action_value a) = Inr (calls @ [Send_input (RELEASE b)])
    \<and> pressed (calls @ [Send_input (RELEASE b)]) \<inter> held_after (calls @ [Send_input (RELEASE b)]) s = {}
    \<and> held_after (calls @ [Send_input (RELEASE b)]) s \<subseteq> s
    \<and> held_after (calls @ [Send_input (RELEASE b)]) {} = {}"
proof (cases a)
  case DOWN then show ?thesis by (auto simp add: eval_calls) next
  case LEFT then show ?thesis by (auto simp add: eval_calls) next
  case RIGHT then show ?thesis by (auto simp add: eval_calls) next
  case UP then show ?thesis by (auto simp add: eval_calls) next
  case JUMP then show ?thesis by (auto simp add: eval_calls) next
  case PRESS_B then show ?thesis by (auto simp add: eval_calls) next
  case JUMP_OBS then show ?thesis by (auto simp add: eval_calls) next
  case JUMP_EMPTY then show ?thesis by (auto simp add: eval_calls) next
  case JUMP_POWER_UP then show ?thesis by (auto simp add: eval_calls) next
  case JUMP_SKIP_ENEMY then show ?thesis by (auto simp add: eval_calls) next
  case JUMP_RIGHT then show ?thesis by (auto simp add: eval_calls) next
  case ENEMY_LEFT then show ?thesis by (auto simp add: eval_calls) next
  case JUMP_STAIRS then show ?thesis by (auto simp add: eval_calls) next
  case TUNNEL_LEFT then show ?thesis by (auto simp add: eval_calls) next
  case JUMP_BIG_GAP then show ?thesis by (auto simp add: eval_calls) next
  case JUMP_EMPTY_REDUCED then show ?thesis by (auto simp add: eval_calls)
qed

theorem run_action_releases_witness:
  "run_action 10 (action_value JUMP_EMPTY) =
     Inr ([Send_input (PRESS BUTTON_A), Send_input (PRESS ARROW_RIGHT)] @ replicate 50 Tick
          @ [Send_input (RELEASE BUTTON_A), Send_input (RELEASE ARROW_RIGHT)])
   \<and> (\<exists>calls remaining b.
      recipe 10 (action_value JUMP_EMPTY) = Inr (calls, remaining)
    \<and> idx valid_actions remaining = Inr (PRESS b)
    \<and> run_action 10 (action_value JUMP_EMPTY) = Inr (calls @ [Send_input (RELEASE b)])
    \<and> pressed (calls @ [Send_input (RELEASE b)]) \<inter> held_after (calls @ [Send_input (RELEASE b)]) {BUTTON_B} = {}
    \<and> held_after (calls @ [Send_input (RELEASE b)]) {BUTTON_B} \<subseteq> {BUTTON_B}
    \<and> held_after (calls @ [Send_input (RELEASE b)]) {} = {})"
proof -
  have "run_action 10 (action_value JUMP_EMPTY) =
     Inr ([Send_input (PRESS BUTTON_A), Send_input (PRESS ARROW_RIGHT)] @ replicate 50 Tick
          @ [Send_input (RELEASE BUTTON_A), Send_input (RELEASE ARROW_RIGHT)])"
    by (simp add: recipe_def run_action_def send_input_def ticks_def valid_actions_def
        release_button_def idx_def err_bind_simps)
  with run_action_releases[of 10 JUMP_EMPTY "{BUTTON_B}"] show ?thesis by blast
qed

subsection \<open>C2: standing on a pipe\<close>

text \<open>
  C2 as stated fails: \<^verbatim>\<open>JUMP_SKIP_ENEMY\<close> is a jump variant, and with it as previous
  action the agent standing on a pipe gets \<^verbatim>\<open>JUMP_RIGHT\<close>, not \<^verbatim>\<open>UP\<close>.
\<close>

theorem pipe_rule_counterexample:
  "find_mario pipe_grid = Inr (0, 1) \<and> (0 :: int) < 14
   \<and> cell pipe_grid (0 + 2) 1 = Inr (element_value PIPE)
   \<and> spec_jump_variant JUMP_SKIP_ENEMY
   \<and> choose_action \<lparr>prev_action = JUMP_SKIP_ENEMY, prev_x = 0\<rparr>
        \<lparr>game_area = pipe_grid, x_position = 7, world = 1, stage = 1\<rparr>
       = Inr (action_value JUMP_RIGHT, \<lparr>prev_action = JUMP_RIGHT, prev_x = 7\<rparr>)
   \<and> action_value JUMP_RIGHT \<noteq> action_value UP"
  by (simp add: pipe_grid_def eval_engine eval_queries eval_grid eval_dist)

text \<open>
  C2, amended. On a rectangular game area where the agent's row is below 14, the cell two
  rows below the agent is a PIPE and the obstacle scan made beforehand does not raise,
  \<^verbatim>\<open>choose_action\<close> returns \<^verbatim>\<open>UP\<close> when the previous action is one of \<^verbatim>\<open>JUMP\<close>,
  \<^verbatim>\<open>JUMP_EMPTY\<close>, \<^verbatim>\<open>JUMP_OBS\<close>, \<^verbatim>\<open>JUMP_POWER_UP\<close>, and \<^verbatim>\<open>JUMP_RIGHT\<close> otherwise; it
  records the action returned.
\<close>

theorem pipe_rule:
  assumes grid: "is_grid (game_area env)"
    and fm: "find_mario (game_area env) = Inr (row, col)"
    and co: "check_obstacle row col (game_area env) = Inr obstacle_check"
    and row: "row < 14"
    and pipe: "cell (game_area env) (row + 2) col = Inr (element_value PIPE)"
  shows "choose_action h env =
           (if prev_action h \<in> {JUMP, JUMP_EMPTY, JUMP_OBS, JUMP_POWER_UP}
            then Inr (action_value UP, \<lparr>prev_action = UP, prev_x = x_position env\<rparr>)
            else Inr (action_value JUMP_RIGHT,
                      \<lparr>prev_action = JUMP_RIGHT, prev_x = x_position env\<rparr>))"
proof -
  obtain er ec where fe: "find_enemy (game_area env) = Inr (er, ec)"
    using find_enemy_total[OF grid] by fastforce
  obtain d t where ged: "get_enemy_dist row col (game_area env) = Inr (d, t)"
    using get_enemy_dist_total[OF grid, of row col] by fastforce
  have "select_action h env =
          (if prev_action h \<in> {JUMP, JUMP_EMPTY, JUMP_OBS, JUMP_POWER_UP} then Inr UP
           else Inr JUMP_RIGHT)"
    using select_action_unfold[OF fm fe ged co row pipe, of h] by simp
  then show ?thesis by (auto simp: choose_action_def err_bind_simps)
qed

theorem pipe_rule_witness:
  "is_grid pipe_grid \<and> find_mario pipe_grid = Inr (0, 1)
   \<and> check_obstacle 0 1 pipe_grid = Inr NoObstacle \<and> (0 :: int) < 14
   \<and> cell pipe_grid (0 + 2) 1 = Inr (element_value PIPE)
   \<and> choose_action \<lparr>prev_action = JUMP, prev_x = 0\<rparr>
        \<lparr>game_area = pipe_grid, x_position = 7, world = 1, stage = 1\<rparr>
       = Inr (action_value UP, \<lparr>prev_action = UP, prev_x = 7\<rparr>)"
proof -
  let ?env = "\<lparr>game_area = pipe_grid, x_position = 7, world = 1, stage = 1\<rparr>"
  have g: "is_grid (game_area ?env)" by (simp add: pipe_grid_def eval_grid)
  have fm: "find_mario (game_area ?env) = Inr (0, 1)"
    by (simp add: pipe_grid_def eval_queries eval_grid)
  have co: "check_obstacle 0 1 (game_area ?env) = Inr NoObstacle"
    by (simp add: pipe_grid_def eval_queries eval_grid eval_dist)
  have row: "(0 :: int) < 14" by simp
  have pipe: "cell (game_area ?env) (0 + 2) 1 = Inr (element_value PIPE)"
    by (simp add: pipe_grid_def eval_grid)
  from pipe_rule[OF g fm co row pipe, of "\<lparr>prev_action = JUMP, prev_x = 0\<rparr>"] g fm co pipe
  show ?thesis by simp
qed

subsection \<open>C3: a hostile below the agent\<close>

text \<open>
  C3 as stated fails: with a hostile on the agent's own level, two columns ahead, ground
  under the agent and \<^verbatim>\<open>RIGHT\<close> as previous action, the engine returns \<^verbatim>\<open>JUMP\<close>, not
  \<^verbatim>\<open>JUMP_EMPTY\<close>.
\<close>

theorem enemy_below_rule_counterexample:
  "find_mario gumba_grid = Inr (0, 1) \<and> (0 :: int) < 14
   \<and> cell gumba_grid (0 + 2) 1 = Inr (element_value GROUND)
   \<and> find_enemy gumba_grid = Inr (1, 3)
   \<and> get_enemy_dist 0 1 gumba_grid = Inr (sqrt 5, Some (element_value GUMBA))
   \<and> (0 :: int) \<le> 1 \<and> (1 :: int) < 3 \<and> sqrt 5 < 7
   \<and> element_value GROUND \<noteq> element_value EMPTY
   \<and> choose_action \<lparr>prev_action = RIGHT, prev_x = 0\<rparr>
        \<lparr>game_area = gumba_grid, x_position = 7, world = 1, stage = 1\<rparr>
       = Inr (action_value JUMP, \<lparr>prev_action = JUMP, prev_x = 7\<rparr>)
   \<and> action_value JUMP \<noteq> action_value JUMP_EMPTY"
  by (simp add: gumba_grid_def eval_engine eval_queries eval_grid eval_dist)

text \<open>
  C3, amended. When the four queries made up front do not raise, the agent's row is below
  14, the cell two rows below the agent is neither a PIPE nor EMPTY, the hostile that
  \<^verbatim>\<open>find_enemy\<close> reports lies at least two rows below the agent's row, the distance that
  \<^verbatim>\<open>get_enemy_dist\<close> reports is below 7 and the previous action is \<^verbatim>\<open>RIGHT\<close>, then
  \<^verbatim>\<open>choose_action\<close> returns and records \<^verbatim>\<open>JUMP_EMPTY\<close>.
\<close>

theorem enemy_below_rule:
  assumes fm: "find_mario (game_area env) = Inr (row, col)"
    and fe: "find_enemy (game_area env) = Inr (enemy_row, enemy_col)"
    and ged: "get_enemy_dist row col (game_area env) = Inr (enemy_dist, enemy_type)"
    and co: "check_obstacle row col (game_area env) = Inr obstacle_check"
    and row: "row < 14"
    and below: "cell (game_area env) (row + 2) col = Inr below"
    and not_pipe: "below \<noteq> element_value PIPE"
    and not_empty: "below \<noteq> element_value EMPTY"
    and lower: "row + 2 \<le> enemy_row"
    and near: "enemy_dist < 7"
    and prev: "prev_action h = RIGHT"
  shows "choose_action h env =
           Inr (action_value JUMP_EMPTY, \<lparr>prev_action = JUMP_EMPTY, prev_x = x_position env\<rparr>)"
proof -
  from find_mario_nonneg[OF fm] lower have "enemy_row \<noteq> 0" "\<not> enemy_row < row" by auto
  with not_pipe not_empty lower near prev
  have "select_action h env = Inr JUMP_EMPTY"
    using select_action_unfold[OF fm fe ged co row below, of h] by simp
  then show ?thesis by (simp add: choose_action_def err_bind_simps)
qed

theorem enemy_below_rule_witness:
  "find_mario gumba_below_grid = Inr (0, 1) \<and> find_enemy gumba_below_grid = Inr (3, 3)
   \<and> get_enemy_dist 0 1 gumba_below_grid = Inr (sqrt 13, Some (element_value GUMBA))
   \<and> check_obstacle 0 1 gumba_below_grid = Inr NoObstacle \<and> (0 :: int) < 14
   \<and> cell gumba_below_grid (0 + 2) 1 = Inr (element_value GROUND)
   \<and> element_value GROUND \<noteq> element_value PIPE \<and> element_value GROUND \<noteq> element_value EMPTY
   \<and> (0 :: int) + 2 \<le> 3 \<and> sqrt 13 < 7
   \<and> choose_action \<lparr>prev_action = RIGHT, prev_x = 0\<rparr>
        \<lparr>game_area = gumba_below_grid, x_position = 7, world = 1, stage = 1\<rparr>
       = Inr (action_value JUMP_EMPTY, \<lparr>prev_action = JUMP_EMPTY, prev_x = 7\<rparr>)"
proof -
  let ?env = "\<lparr>game_area = gumba_below_grid, x_position = 7, world = 1, stage = 1\<rparr>"
  let ?h = "\<lparr>prev_action = RIGHT, prev_x = 0\<rparr>"
  have fm: "find_mario (game_area ?env) = Inr (0, 1)"
    by (simp add: gumba_below_grid_def eval_queries eval_grid)
  have fe: "find_enemy (game_area ?env) = Inr (3, 3)"
    by (simp add: gumba_below_grid_def eval_queries eval_grid)
  have ged: "get_enemy_dist 0 1 (game_area ?env) = Inr (sqrt 13, Some (element_value GUMBA))"
    by (simp add: gumba_below_grid_def eval_queries eval_grid get_distance_def)
  have co: "check_obstacle 0 1 (game_area ?env) = Inr NoObstacle"
    by (simp add: gumba_below_grid_def eval_queries eval_grid eval_dist)
  have row: "(0 :: int) < 14" by simp
  have below: "cell (game_area ?env) (0 + 2) 1 = Inr (element_value GROUND)"
    by (simp add: gumba_below_grid_def eval_grid)
  have np: "element_value GROUND \<noteq> element_value PIPE" by simp
  have ne: "element_value GROUND \<noteq> element_value EMPTY" by simp
  have lower: "(0 :: int) + 2 \<le> 3" by simp
  have near: "sqrt 13 < 7" by (simp add: sqrt_less_iff)
  have prev: "prev_action ?h = RIGHT" by simp
  from enemy_below_rule[OF fm fe ged co row below np ne lower near prev]
    fm fe ged co below near
  show ?thesis by simp
qed

subsection \<open>C5: the power-up check\<close>

text \<open>
  C5 as stated fails: a power-up tile above and right of the agent within distance 3, the
  agent on ground and ground two rows below it, and yet \<^verbatim>\<open>check_power_up\<close> returns
  \<^verbatim>\<open>False\<close>, because the scan meets a power-up tile out of reach first.
\<close>

theorem check_power_up_first_candidate_counterexample:
  "cell two_power_ups 3 2 = Inr (element_value POWERUP) \<and> (3 :: int) \<le> 4 \<and> (1 :: int) < 2
   \<and> get_distance 4 1 3 2 \<le> 3
   \<and> check_on_ground 4 1 two_power_ups = Inr True
   \<and> cell two_power_ups (4 + 2) 1 = Inr (element_value GROUND)
   \<and> check_power_up 4 1 two_power_ups = Inr (Some False)"
  by (simp add: two_power_ups_def eval_queries eval_grid eval_dist)

text \<open>
  C5, amended. On a rectangular game area \<^verbatim>\<open>check_power_up\<close> returns \<^verbatim>\<open>True\<close> if and only
  if the first POWERUP cell of the column-major scan that is above or level with the agent
  and in the agent's column or right of it lies within Euclidean distance 3.0,
  \<^verbatim>\<open>check_on_ground\<close> returns \<^verbatim>\<open>True\<close> and the cell two rows below the agent is GROUND.
\<close>

theorem check_power_up_first_candidate:
  assumes grid: "is_grid g" and sh: "shape g = (x, y)"
  shows "check_power_up row col g = Inr (Some True) \<longleftrightarrow>
     (\<exists>a b. 0 \<le> a \<and> a < x \<and> 0 \<le> b \<and> b < y
         \<and> cell g a b = Inr (element_value POWERUP) \<and> a \<le> row \<and> col \<le> b
         \<and> (\<forall>a' b'. 0 \<le> a' \<and> a' < x \<and> 0 \<le> b' \<and> b' < y \<and> (b' < b \<or> (b' = b \<and> a' < a))
                \<and> a' \<le> row \<and> col \<le> b'
              \<longrightarrow> cell g a' b' \<noteq> Inr (element_value POWERUP))
         \<and> get_distance row col a b \<le> 3)
     \<and> check_on_ground row col g = Inr True
     \<and> cell g (row + 2) col = Inr (element_value GROUND)"
    (is "?L \<longleftrightarrow> ?R")
proof -
  let ?body = "\<lambda>b a. power_up_body row col g a b"
  have ne: "Inr (Some True) \<noteq> (Inr None :: error + bool option)" by simp
  have scan: "?L \<longleftrightarrow>
     (\<exists>b a. 0 \<le> b \<and> b < y \<and> 0 \<le> a \<and> a < x \<and> ?body b a = Inr (Some True) \<and>
        (\<forall>b' a'. 0 \<le> b' \<and> b' < y \<and> 0 \<le> a' \<and> a' < x \<and> (b' < b \<or> (b' = b \<and> a' < a))
            \<longrightarrow> ?body b' a' = Inr None))"
    using scan_stop_iff[OF ne, of y x ?body] by (simp add: check_power_up_def sh)
  have c: "cell g a b = Inr (g ! nat a ! nat b)" if "0 \<le> a" "a < x" "0 \<le> b" "b < y" for a b
    using cell_in_range[OF grid sh that] .
  show ?thesis
  proof
    assume ?L
    with scan obtain b a where ba: "0 \<le> b" "b < y" "0 \<le> a" "a < x"
      and here: "?body b a = Inr (Some True)"
      and before: "\<forall>b' a'. 0 \<le> b' \<and> b' < y \<and> 0 \<le> a' \<and> a' < x \<and> (b' < b \<or> (b' = b \<and> a' < a))
            \<longrightarrow> ?body b' a' = Inr None"
      by blast
    from here c[OF ba(3,4,1,2)]
    have found: "cell g a b = Inr (element_value POWERUP)" "check_on_ground row col g = Inr True"
      "a \<le> row" "col \<le> b" "get_distance row col a b \<le> 3"
      "cell g (row + 2) col = Inr (element_value GROUND)"
      using power_up_body_True_iff[of g a b "g ! nat a ! nat b" row col] by auto
    have "cell g a' b' \<noteq> Inr (element_value POWERUP)"
      if "0 \<le> a' \<and> a' < x \<and> 0 \<le> b' \<and> b' < y \<and> (b' < b \<or> (b' = b \<and> a' < a))
                \<and> a' \<le> row \<and> col \<le> b'" for a' b'
    proof -
      from that before have "?body b' a' = Inr None" by blast
      moreover from that have "cell g a' b' = Inr (g ! nat a' ! nat b')" using c by blast
      ultimately show ?thesis
        using power_up_body_None_iff[of g a' b' "g ! nat a' ! nat b'" row col] found(2) that
        by auto
    qed
    with ba found show ?R by blast
  next
    assume ?R
    then obtain a b where ab: "0 \<le> a" "a < x" "0 \<le> b" "b < y"
      and pu: "cell g a b = Inr (element_value POWERUP)" "a \<le> row" "col \<le> b"
        "get_distance row col a b \<le> 3"
      and first: "\<forall>a' b'. 0 \<le> a' \<and> a' < x \<and> 0 \<le> b' \<and> b' < y \<and> (b' < b \<or> (b' = b \<and> a' < a))
                \<and> a' \<le> row \<and> col \<le> b'
              \<longrightarrow> cell g a' b' \<noteq> Inr (element_value POWERUP)"
      and cog: "check_on_ground row col g = Inr True"
      and ground: "cell g (row + 2) col = Inr (element_value GROUND)"
      by blast
    have here: "?body b a = Inr (Some True)"
      using power_up_body_True_iff[OF pu(1), of row col] pu cog ground by simp
    have before: "?body b' a' = Inr None"
      if "0 \<le> b' \<and> b' < y \<and> 0 \<le> a' \<and> a' < x \<and> (b' < b \<or> (b' = b \<and> a' < a))" for a' b'
    proof -
      from that have cc: "cell g a' b' = Inr (g ! nat a' ! nat b')" using c by blast
      from that first cc
      have "\<not> (g ! nat a' ! nat b' = element_value POWERUP \<and> a' \<le> row \<and> col \<le> b')"
        by auto
      then show ?thesis using power_up_body_None_iff[OF cc cog] by blast
    qed
    from ab here before show ?L unfolding scan by blast
  qed
qed

theorem check_power_up_first_candidate_witness:
  "is_grid one_power_up \<and> shape one_power_up = (5, 3)
   \<and> check_power_up 2 1 one_power_up = Inr (Some True)
   \<and> (\<exists>a b. 0 \<le> a \<and> a < 5 \<and> 0 \<le> b \<and> b < 3
         \<and> cell one_power_up a b = Inr (element_value POWERUP) \<and> a \<le> 2 \<and> 1 \<le> b
         \<and> (\<forall>a' b'. 0 \<le> a' \<and> a' < 5 \<and> 0 \<le> b' \<and> b' < 3 \<and> (b' < b \<or> (b' = b \<and> a' < a))
                \<and> a' \<le> 2 \<and> 1 \<le> b'
              \<longrightarrow> cell one_power_up a' b' \<noteq> Inr (element_value POWERUP))
         \<and> get_distance 2 1 a b \<le> 3)
   \<and> check_on_ground 2 1 one_power_up = Inr True
   \<and> cell one_power_up (2 + 2) 1 = Inr (element_value GROUND)"
proof -
  have g: "is_grid one_power_up" by (simp add: one_power_up_def eval_grid)
  have sh: "shape one_power_up = (5, 3)" by (simp add: one_power_up_def eval_grid)
  have v: "check_power_up 2 1 one_power_up = Inr (Some True)"
    by (simp add: one_power_up_def eval_queries eval_grid eval_dist)
  from check_power_up_first_candidate[OF g sh, of 2 1] g sh v show ?thesis by blast
qed

subsection \<open>C6: the gap check\<close>

text \<open>
  C6, at the left edge of the screen. The agent's leading edge is in column 1. The EMPTY
  cell in row 14, column 2 has two cells to its left, both GROUND; the third subscript,
  column \<open>2 - 3\<close>, is negative and reads the last column of the row, which is GROUND too.
  The next EMPTY cell, in column 3, has an EMPTY left neighbour, and column 4 is further
  than 2.9 away. No EMPTY cell has three GROUND or three BLOCK cells to its left, and
  \<^verbatim>\<open>check_empty_jump\<close> returns \<^verbatim>\<open>True\<close>.
\<close>

theorem check_empty_jump_wraps_at_left_edge:
  "is_grid left_edge_gap \<and> shape left_edge_gap = (16, 20)
   \<and> find_mario left_edge_gap = Inr (12, 1)
   \<and> check_empty_jump 12 1 left_edge_gap = Inr True
   \<and> cell left_edge_gap 14 2 = Inr (element_value EMPTY)
   \<and> cell left_edge_gap 14 (2 - 1) = Inr (element_value GROUND)
   \<and> cell left_edge_gap 14 (2 - 2) = Inr (element_value GROUND)
   \<and> cell left_edge_gap 14 (2 - 3) = cell left_edge_gap 14 19
   \<and> cell left_edge_gap 14 19 = Inr (element_value GROUND)
   \<and> cell left_edge_gap 14 3 = Inr (element_value EMPTY)
   \<and> cell left_edge_gap 14 (3 - 1) = Inr (element_value EMPTY)
   \<and> \<not> get_distance 12 1 14 4 \<le> 29 / 10"
  by (simp add: left_edge_gap_def eval_queries eval_grid eval_dist)

text \<open>
  X1. Away from the left edge the gap check is what C6 says. With the agent's column at least
  2 on a rectangular game area, \<^verbatim>\<open>check_empty_jump\<close> returns \<^verbatim>\<open>True\<close> if and only if
  some EMPTY cell two rows below the agent and strictly right of it has its three left
  neighbours all GROUND or all BLOCK and lies within Euclidean distance 2.9.
\<close>

theorem check_empty_jump_away_from_edge:
  assumes grid: "is_grid g" and sh: "shape g = (x, y)" and col: "2 \<le> col"
  shows "check_empty_jump row col g = Inr True \<longleftrightarrow>
     (\<exists>b. 0 \<le> row + 2 \<and> row + 2 < x \<and> col < b \<and> b < y
         \<and> cell g (row + 2) b = Inr (element_value EMPTY)
         \<and> ((cell g (row + 2) (b - 1) = Inr (element_value GROUND)
               \<and> cell g (row + 2) (b - 2) = Inr (element_value GROUND)
               \<and> cell g (row + 2) (b - 3) = Inr (element_value GROUND))
            \<or> (cell g (row + 2) (b - 1) = Inr (element_value BLOCK)
               \<and> cell g (row + 2) (b - 2) = Inr (element_value BLOCK)
               \<and> cell g (row + 2) (b - 3) = Inr (element_value BLOCK)))
         \<and> get_distance row col (row + 2) b \<le> 29 / 10)"
    (is "?L \<longleftrightarrow> ?R")
proof -
  let ?body = "\<lambda>b a. empty_jump_body row col g a b"
  let ?scan = "for_loop (py_range y) (\<lambda>b. for_loop (py_range x) (\<lambda>a. ?body b a))"
  note body = empty_jump_body_cases[OF grid sh _ _ _ _ col, of _ _ row]
  have cej: "check_empty_jump row col g = or_return ?scan False"
    by (simp add: check_empty_jump_def sh)
  have total: "\<exists>r. ?scan = Inr r"
    by (rule scan_total[of y x ?body]) (simp add: body)
  have some_true: "r = True" if "?scan = Inr (Some r)" for r
  proof -
    have ne: "Inr (Some r) \<noteq> (Inr None :: error + bool option)" by simp
    from that have "\<exists>b a. 0 \<le> b \<and> b < y \<and> 0 \<le> a \<and> a < x \<and> ?body b a = Inr (Some r) \<and>
        (\<forall>b' a'. 0 \<le> b' \<and> b' < y \<and> 0 \<le> a' \<and> a' < x \<and> (b' < b \<or> (b' = b \<and> a' < a))
            \<longrightarrow> ?body b' a' = Inr None)"
      by (rule iffD1[OF scan_stop_iff[OF ne, of y x ?body]])
    then obtain b a where "0 \<le> b" "b < y" "0 \<le> a" "a < x" "?body b a = Inr (Some r)" by blast
    then show ?thesis by (simp add: body split: if_splits)
  qed
  have "?L \<longleftrightarrow> ?scan \<noteq> Inr None"
  proof -
    from total obtain r where r: "?scan = Inr r" by blast
    show ?thesis
    proof (cases r)
      case None
      with r show ?thesis by (simp add: cej or_return_def)
    next
      case (Some v)
      with r some_true have "v = True" by simp
      with r Some show ?thesis by (simp add: cej or_return_def)
    qed
  qed
  also have "\<dots> \<longleftrightarrow> (\<exists>b a. 0 \<le> b \<and> b < y \<and> 0 \<le> a \<and> a < x \<and> ?body b a \<noteq> Inr None)"
    using scan_None_iff[of y x ?body] by blast
  also have "\<dots> \<longleftrightarrow> ?R"
  proof
    assume "\<exists>b a. 0 \<le> b \<and> b < y \<and> 0 \<le> a \<and> a < x \<and> ?body b a \<noteq> Inr None"
    then obtain b a where ba: "0 \<le> b" "b < y" "0 \<le> a" "a < x" "?body b a \<noteq> Inr None"
      by blast
    from ba(5) body[OF ba(3,4,1,2)] have
      "cell g a b = Inr (element_value EMPTY) \<and> a = row + 2 \<and> col < b
         \<and> ((cell g a (b - 1) = Inr (element_value GROUND)
               \<and> cell g a (b - 2) = Inr (element_value GROUND)
               \<and> cell g a (b - 3) = Inr (element_value GROUND))
            \<or> (cell g a (b - 1) = Inr (element_value BLOCK)
               \<and> cell g a (b - 2) = Inr (element_value BLOCK)
               \<and> cell g a (b - 3) = Inr (element_value BLOCK)))
         \<and> get_distance row col a b \<le> 29 / 10"
      by (auto split: if_splits)
    with ba show ?R by blast
  next
    assume ?R
    then obtain b where b: "0 \<le> row + 2" "row + 2 < x" "col < b" "b < y"
      and rest: "cell g (row + 2) b = Inr (element_value EMPTY)"
        "(cell g (row + 2) (b - 1) = Inr (element_value GROUND)
               \<and> cell g (row + 2) (b - 2) = Inr (element_value GROUND)
               \<and> cell g (row + 2) (b - 3) = Inr (element_value GROUND))
            \<or> (cell g (row + 2) (b - 1) = Inr (element_value BLOCK)
               \<and> cell g (row + 2) (b - 2) = Inr (element_value BLOCK)
               \<and> cell g (row + 2) (b - 3) = Inr (element_value BLOCK))"
        "get_distance row col (row + 2) b \<le> 29 / 10"
      by blast
    from b col have b0: "0 \<le> b" by simp
    have "?body b (row + 2) = Inr (Some True)"
      using body[OF b(1,2) b0 b(4)] b(3) rest by simp
    then have "?body b (row + 2) \<noteq> Inr None" by simp
    with b b0 show "\<exists>b a. 0 \<le> b \<and> b < y \<and> 0 \<le> a \<and> a < x \<and> ?body b a \<noteq> Inr None" by blast
  qed
  finally show ?thesis .
qed

theorem check_empty_jump_away_from_edge_witness:
  "is_grid pit_grid \<and> shape pit_grid = (16, 20) \<and> (2 :: int) \<le> 3
   \<and> check_empty_jump 12 3 pit_grid = Inr True
   \<and> (\<exists>b. (0 :: int) \<le> 12 + 2 \<and> (12 :: int) + 2 < 16 \<and> 3 < b \<and> b < 20
         \<and> cell pit_grid (12 + 2) b = Inr (element_value EMPTY)
         \<and> ((cell pit_grid (12 + 2) (b - 1) = Inr (element_value GROUND)
               \<and> cell pit_grid (12 + 2) (b - 2) = Inr (element_value GROUND)
               \<and> cell pit_grid (12 + 2) (b - 3) = Inr (element_value GROUND))
            \<or> (cell pit_grid (12 + 2) (b - 1) = Inr (element_value BLOCK)
               \<and> cell pit_grid (12 + 2) (b - 2) = Inr (element_value BLOCK)
               \<and> cell pit_grid (12 + 2) (b - 3) = Inr (element_value BLOCK)))
         \<and> get_distance 12 3 (12 + 2) b \<le> 29 / 10)"
proof -
  have g: "is_grid pit_grid" by (simp add: pit_grid_def eval_grid)
  have sh: "shape pit_grid = (16, 20)" by (simp add: pit_grid_def eval_grid)
  have col: "(2 :: int) \<le> 3" by simp
  have v: "check_empty_jump 12 3 pit_grid = Inr True"
    by (simp add: pit_grid_def eval_queries eval_grid eval_dist)
  from check_empty_jump_away_from_edge[OF g sh col, of 12] g sh v show ?thesis by simp
qed

subsection \<open>C1: the engine is not total\<close>

text \<open>
  C1, in a pit. The agent's first tile is in row 14, so \<^verbatim>\<open>check_obstacle\<close> scans. In
  column 10 the GROUND tile of row 15 passes the test \<^verbatim>\<open>a <= row+1\<close>, and the scan reads
  \<^verbatim>\<open>game_area[a+1,b]\<close> in row 16 of a sixteen-row area: \<^verbatim>\<open>choose_action\<close> raises
  \<^verbatim>\<open>IndexError\<close>.
\<close>

theorem choose_action_raises_in_pit:
  "is_grid pit_grid \<and> shape pit_grid = (16, 20)
   \<and> find_mario pit_grid = Inr (14, 6)
   \<and> cell pit_grid 15 10 = Inr (element_value GROUND)
   \<and> cell pit_grid (15 + 1) 10 = Inl IndexError
   \<and> check_obstacle 14 6 pit_grid = Inl IndexError
   \<and> choose_action \<lparr>prev_action = RIGHT, prev_x = 0\<rparr>
        \<lparr>game_area = pit_grid, x_position = 100, world = 1, stage = 1\<rparr> = Inl IndexError"
  by (simp add: pit_grid_def eval_engine eval_queries eval_grid eval_dist)

end
